theory Spec2Isabelle
  imports Main "HOL-Library.Sublist"
begin

section \<open>Values, exceptions and the log\<close>

text \<open>
  The values handled by \<^verbatim>\<open>rtsf/p_testcase.py\<close> are the trees a YAML or JSON decoder
  produces. The model covers \<^verbatim>\<open>None\<close>, \<^verbatim>\<open>bool\<close>, \<^verbatim>\<open>int\<close>, \<^verbatim>\<open>str\<close>,
  \<^verbatim>\<open>list\<close> and \<^verbatim>\<open>dict\<close>; a dict is the list of its items in insertion order.
  Floats, complex numbers, tuples, sets and other objects are outside the model.
  A string is a list of \<^typ>\<open>char\<close>: the character with code \<open>n\<close> stands for the code
  point U+00\<open>n\<close>, so the strings of the model are the Python 3 strings over the code
  points U+0000 to U+00FF, and the character classes are those of Python 3 on these code
  points. Text with a code point above U+00FF is outside the model.
\<close>

datatype pyval =
    PNone
  | PBool bool
  | PInt int
  | PStr string
  | PList "pyval list"
  | PDict "(pyval \<times> pyval) list"

text \<open>The exceptions of \<^verbatim>\<open>p_exception\<close> the module raises, and the builtin ones.\<close>

datatype exn =
    FunctionNotFound string
  | ParamsError string
  | ApiNotFound string
  | SuiteNotFound string
  | FileNotFoundError string
  | FileFormatError string
  | ModelFormatError string
  | JSONDecodeError
  | ValueError
  | TypeError
  | AttributeError
  | KeyError
  | AssertionError
  | OtherError string

text \<open>The calls of \<^verbatim>\<open>logger\<close>, in the order they are made.\<close>

datatype log_entry =
    DebugFunction string pyval
  | DebugVariable string pyval
  | DebugLoader string pyval
  | Warning string
  | Error string
  | ErrorExc exn

type_synonym log = "log_entry list"

section \<open>Builtins of Python\<close>

text \<open>Truth value of an object: \<^verbatim>\<open>not x\<close> is \<open>\<not> truthy x\<close>.\<close>

fun truthy :: "pyval \<Rightarrow> bool" where
  "truthy PNone = False"
| "truthy (PBool b) = b"
| "truthy (PInt i) = (i \<noteq> 0)"
| "truthy (PStr s) = (s \<noteq> [])"
| "truthy (PList xs) = (xs \<noteq> [])"
| "truthy (PDict kvs) = (kvs \<noteq> [])"

fun is_str :: "pyval \<Rightarrow> bool" where
  "is_str (PStr s) = True"
| "is_str v = False"

fun is_dict :: "pyval \<Rightarrow> bool" where
  "is_dict (PDict kvs) = True"
| "is_dict v = False"

fun is_list :: "pyval \<Rightarrow> bool" where
  "is_list (PList xs) = True"
| "is_list v = False"

text \<open>
  \<^verbatim>\<open>a == b\<close> where one side is a scalar, which is every comparison of the module:
  \<^verbatim>\<open>True == 1\<close> and \<^verbatim>\<open>False == 0\<close> hold, the other values compare by structure.
\<close>

fun num_of :: "pyval \<Rightarrow> int option" where
  "num_of (PBool b) = Some (if b then 1 else 0)"
| "num_of (PInt i) = Some i"
| "num_of v = None"

definition py_eq :: "pyval \<Rightarrow> pyval \<Rightarrow> bool" where
  "py_eq a b =
     (case num_of a of
        Some x \<Rightarrow> (case num_of b of Some y \<Rightarrow> x = y | None \<Rightarrow> False)
      | None \<Rightarrow> (case num_of b of Some y \<Rightarrow> False | None \<Rightarrow> a = b))"

text \<open>Lists and dicts are not hashable: they cannot be keys of a dict.\<close>

fun hashable :: "pyval \<Rightarrow> bool" where
  "hashable (PList xs) = False"
| "hashable (PDict kvs) = False"
| "hashable v = True"

text \<open>\<^verbatim>\<open>d.get(k)\<close>, \<^verbatim>\<open>d[k] = v\<close> (an existing key keeps its place), \<^verbatim>\<open>k in d\<close>,
  \<^verbatim>\<open>d.pop(k, default)\<close> and \<^verbatim>\<open>d.update(e)\<close> on the items of a dict.\<close>

fun dict_get :: "(pyval \<times> pyval) list \<Rightarrow> pyval \<Rightarrow> pyval option" where
  "dict_get [] k = None"
| "dict_get ((k', v) # kvs) k = (if py_eq k' k then Some v else dict_get kvs k)"

fun dict_set :: "(pyval \<times> pyval) list \<Rightarrow> pyval \<Rightarrow> pyval \<Rightarrow> (pyval \<times> pyval) list" where
  "dict_set [] k v = [(k, v)]"
| "dict_set ((k', v') # kvs) k v =
     (if py_eq k' k then (k', v) # kvs else (k', v') # dict_set kvs k v)"

fun dict_del :: "(pyval \<times> pyval) list \<Rightarrow> pyval \<Rightarrow> (pyval \<times> pyval) list" where
  "dict_del [] k = []"
| "dict_del ((k', v') # kvs) k = (if py_eq k' k then kvs else (k', v') # dict_del kvs k)"

definition dict_has :: "(pyval \<times> pyval) list \<Rightarrow> pyval \<Rightarrow> bool" where
  "dict_has d k = (dict_get d k \<noteq> None)"

definition dict_pop :: "(pyval \<times> pyval) list \<Rightarrow> pyval \<Rightarrow> pyval \<Rightarrow> pyval \<times> (pyval \<times> pyval) list" where
  "dict_pop d k dflt = (case dict_get d k of None \<Rightarrow> (dflt, d) | Some v \<Rightarrow> (v, dict_del d k))"

fun dict_update :: "(pyval \<times> pyval) list \<Rightarrow> (pyval \<times> pyval) list \<Rightarrow> (pyval \<times> pyval) list" where
  "dict_update d [] = d"
| "dict_update d ((k, v) # kvs) = dict_update (dict_set d k v) kvs"

text \<open>Decimal digits of a number, for \<^verbatim>\<open>str(i)\<close>.\<close>

fun digits :: "nat \<Rightarrow> string" where
  "digits n =
     (if n < 10 then [''0123456789'' ! n]
      else digits (n div 10) @ [''0123456789'' ! (n mod 10)])"

text \<open>
  \<^verbatim>\<open>str(x)\<close>. The text of a list or dict is built from \<^verbatim>\<open>repr\<close> of the
  elements, which the interpreter provides: it is the parameter \<open>rp\<close>.
\<close>

fun py_str :: "(pyval \<Rightarrow> string) \<Rightarrow> pyval \<Rightarrow> string" where
  "py_str rp PNone = ''None''"
| "py_str rp (PBool b) = (if b then ''True'' else ''False'')"
| "py_str rp (PInt i) = (if i < 0 then CHR ''-'' # digits (nat (- i)) else digits (nat i))"
| "py_str rp (PStr s) = s"
| "py_str rp v = rp v"

text \<open>\<^verbatim>\<open>for x in v\<close>: the elements of a list, the keys of a dict, the characters of a
  string; anything else is not iterable.\<close>

fun py_iter :: "pyval \<Rightarrow> exn + pyval list" where
  "py_iter (PList xs) = Inr xs"
| "py_iter (PDict kvs) = Inr (map fst kvs)"
| "py_iter (PStr s) = Inr (map (\<lambda>c. PStr [c]) s)"
| "py_iter v = Inl TypeError"

subsection \<open>Strings\<close>

text \<open>
  The characters that \<^verbatim>\<open>\w\<close> matches in a pattern on \<^verbatim>\<open>str\<close>: the underscore and
  the alphanumeric characters of Unicode. Up to U+00FF these are the ASCII letters and
  digits and 71 code points from U+00AA on: the letters of Latin-1 (all of U+00C0 to U+00FF
  but the signs U+00D7 and U+00F7, and U+00AA, U+00B5, U+00BA), the superscript digits
  U+00B2, U+00B3, U+00B9 and the fractions U+00BC to U+00BE.
\<close>

definition word_chars :: string where
  "word_chars = ''abcdefghijklmnopqrstuvwxyzABCDEFGHIJKLMNOPQRSTUVWXYZ0123456789_'' @
       [CHR 0xAA, CHR 0xB2, CHR 0xB3, CHR 0xB5, CHR 0xB9, CHR 0xBA, CHR 0xBC, CHR 0xBD,
        CHR 0xBE, CHR 0xC0, CHR 0xC1, CHR 0xC2, CHR 0xC3, CHR 0xC4, CHR 0xC5, CHR 0xC6,
        CHR 0xC7, CHR 0xC8, CHR 0xC9, CHR 0xCA, CHR 0xCB, CHR 0xCC, CHR 0xCD, CHR 0xCE,
        CHR 0xCF, CHR 0xD0, CHR 0xD1, CHR 0xD2, CHR 0xD3, CHR 0xD4, CHR 0xD5, CHR 0xD6,
        CHR 0xD8, CHR 0xD9, CHR 0xDA, CHR 0xDB, CHR 0xDC, CHR 0xDD, CHR 0xDE, CHR 0xDF,
        CHR 0xE0, CHR 0xE1, CHR 0xE2, CHR 0xE3, CHR 0xE4, CHR 0xE5, CHR 0xE6, CHR 0xE7,
        CHR 0xE8, CHR 0xE9, CHR 0xEA, CHR 0xEB, CHR 0xEC, CHR 0xED, CHR 0xEE, CHR 0xEF,
        CHR 0xF0, CHR 0xF1, CHR 0xF2, CHR 0xF3, CHR 0xF4, CHR 0xF5, CHR 0xF6, CHR 0xF8,
        CHR 0xF9, CHR 0xFA, CHR 0xFB, CHR 0xFC, CHR 0xFD, CHR 0xFE, CHR 0xFF]"

text \<open>The class \<^verbatim>\<open>[\w_]\<close>.\<close>

definition is_word :: "char \<Rightarrow> bool" where
  "is_word c = (c \<in> set word_chars)"

text \<open>The class \<^verbatim>\<open>[\$\w\.\-_ =,]\<close> of the argument text of a call.\<close>

definition is_arg_char :: "char \<Rightarrow> bool" where
  "is_arg_char c = (is_word c \<or> c \<in> set ''$.- =,'')"

text \<open>The class \<^verbatim>\<open>[\w-]\<close> of a case id.\<close>

definition is_id_char :: "char \<Rightarrow> bool" where
  "is_id_char c = (is_word c \<or> c = CHR ''-'')"

text \<open>Whitespace of \<^verbatim>\<open>str.strip()\<close>, the characters with \<^verbatim>\<open>str.isspace()\<close>: the
  codes 9 to 13 and 28 to 32, the next-line control U+0085 and the no-break space
  U+00A0.\<close>

definition is_space :: "char \<Rightarrow> bool" where
  "is_space c = (c \<in> set [CHR 0x09, CHR 0x0A, CHR 0x0B, CHR 0x0C, CHR 0x0D,
                          CHR 0x1C, CHR 0x1D, CHR 0x1E, CHR 0x1F, CHR '' '',
                          CHR 0x85, CHR 0xA0])"

definition strip :: "string \<Rightarrow> string" where
  "strip s = rev (dropWhile is_space (rev (dropWhile is_space s)))"

text \<open>\<^verbatim>\<open>s.split(c)\<close> for a separator of one character.\<close>

fun split_on :: "char \<Rightarrow> string \<Rightarrow> string list" where
  "split_on c [] = [[]]"
| "split_on c (x # xs) =
     (if x = c then [] # split_on c xs
      else (case split_on c xs of [] \<Rightarrow> [[x]] | w # ws \<Rightarrow> (x # w) # ws))"

text \<open>\<^verbatim>\<open>s.replace(old, new, 1)\<close>: the leftmost occurrence only.\<close>

fun replace1 :: "string \<Rightarrow> string \<Rightarrow> string \<Rightarrow> string" where
  "replace1 old new [] = (if old = [] then new else [])"
| "replace1 old new (c # cs) =
     (if prefix old (c # cs) then new @ drop (length old) (c # cs)
      else c # replace1 old new cs)"

text \<open>\<^verbatim>\<open>s.replace(old, new)\<close>: every occurrence, left to right; an empty \<open>old\<close>
  matches before every character and at the end.\<close>

function replace_all :: "string \<Rightarrow> string \<Rightarrow> string \<Rightarrow> string" where
  "replace_all old new s =
     (if old = [] then new @ concat (map (\<lambda>c. c # new) s)
      else if s = [] then []
      else if prefix old s then new @ replace_all old new (drop (length old) s)
      else hd s # replace_all old new (tl s))"
  by pat_completeness auto
termination
  by (relation "measure (\<lambda>(old, new, s). length s)") auto

text \<open>\<^verbatim>\<open>s.endswith(end)\<close>.\<close>

definition endswith :: "string \<Rightarrow> string \<Rightarrow> bool" where
  "endswith s e = prefix (rev e) (rev s)"

text \<open>\<^verbatim>\<open>sub in s\<close> for strings.\<close>

fun contains :: "string \<Rightarrow> string \<Rightarrow> bool" where
  "contains sub [] = (sub = [])"
| "contains sub (c # cs) = (prefix sub (c # cs) \<or> contains sub cs)"

section \<open>Content scanner\<close>

text \<open>
  \<^verbatim>\<open>re.findall(r"\$([\w_]+)", s)\<close>: the scan goes left to right; where \<^verbatim>\<open>$\<close> is
  followed by a word character the match takes the longest run of word characters, the
  group is that run, and the scan goes on after it.
\<close>

function findall_variable :: "string \<Rightarrow> string list" where
  "findall_variable [] = []"
| "findall_variable (c # cs) =
     (if c = CHR ''$'' \<and> takeWhile is_word cs \<noteq> []
      then takeWhile is_word cs # findall_variable (dropWhile is_word cs)
      else findall_variable cs)"
  by pat_completeness auto
termination
  by (relation "measure length") (auto simp: length_dropWhile_le less_Suc_eq_le)

text \<open>
  One match of \<^verbatim>\<open>\$\{([\w_]+\([\$\w\.\-_ =,]*\))\}\<close> on the text after the \<^verbatim>\<open>$\<close>:
  the group and the text left after the match. Neither \<^verbatim>\<open>(\<close> nor \<^verbatim>\<open>)\<close> is in the
  class before it, so each run is the longest one.
\<close>

definition match_function_token :: "string \<Rightarrow> (string \<times> string) option" where
  "match_function_token s =
     (case s of
        [] \<Rightarrow> None
      | c # r \<Rightarrow>
          if c \<noteq> CHR ''{'' \<or> takeWhile is_word r = [] then None
          else (case dropWhile is_word r of
                  [] \<Rightarrow> None
                | p # r2 \<Rightarrow>
                    if p \<noteq> CHR ''('' then None
                    else (case dropWhile is_arg_char r2 of
                            q # b # r4 \<Rightarrow>
                              if q = CHR '')'' \<and> b = CHR ''}''
                              then Some (takeWhile is_word r @ ''('' @ takeWhile is_arg_char r2 @ '')'', r4)
                              else None
                          | _ \<Rightarrow> None)))"

lemma match_function_token_length:
  assumes "match_function_token s = Some (g, r)"
  shows "length g + length r + 2 = length s"
proof -
  from assms obtain c t p r2 q b where s: "s = c # t"
    and d1: "dropWhile is_word t = p # r2"
    and d2: "dropWhile is_arg_char r2 = q # b # r"
    and g: "g = takeWhile is_word t @ ''('' @ takeWhile is_arg_char r2 @ '')''"
    unfolding match_function_token_def
    by (auto split: list.splits if_splits)
  have "length (takeWhile is_word t) + length (p # r2) = length t"
    using arg_cong [OF takeWhile_dropWhile_id [of is_word t], of length]
    by (simp only: d1 length_append)
  moreover have "length (takeWhile is_arg_char r2) + length (q # b # r) = length r2"
    using arg_cong [OF takeWhile_dropWhile_id [of is_arg_char r2], of length]
    by (simp only: d2 length_append)
  ultimately show ?thesis using s g by simp
qed

lemma match_function_token_shorter:
  "match_function_token s = Some (g, r) \<Longrightarrow> length r < length s"
  using match_function_token_length [of s g r] by simp

text \<open>\<^verbatim>\<open>re.findall(function_regexp, s)\<close>.\<close>

function findall_function :: "string \<Rightarrow> string list" where
  "findall_function [] = []"
| "findall_function (c # cs) =
     (if c = CHR ''$''
      then (case match_function_token cs of
              Some (g, r) \<Rightarrow> g # findall_function r
            | None \<Rightarrow> findall_function cs)
      else findall_function cs)"
  by pat_completeness auto
termination
  by (relation "measure length") (auto dest: match_function_token_shorter)

text \<open>
  \<^verbatim>\<open>extract_variables\<close> and \<^verbatim>\<open>extract_functions\<close>: \<^verbatim>\<open>re.findall\<close> raises
  \<^verbatim>\<open>TypeError\<close> on an object that is not a string, and the handler returns \<^verbatim>\<open>[]\<close>.
\<close>

definition re_findall :: "(string \<Rightarrow> string list) \<Rightarrow> pyval \<Rightarrow> exn + string list" where
  "re_findall scan content = (case content of PStr s \<Rightarrow> Inr (scan s) | _ \<Rightarrow> Inl TypeError)"

definition extract_variables :: "pyval \<Rightarrow> string list" where
  "extract_variables content =
     (case re_findall findall_variable content of Inr r \<Rightarrow> r | Inl e \<Rightarrow> [])"

definition extract_functions :: "pyval \<Rightarrow> string list" where
  "extract_functions content =
     (case re_findall findall_function content of Inr r \<Rightarrow> r | Inl e \<Rightarrow> [])"

section \<open>Call parser\<close>

text \<open>
  \<^verbatim>\<open>function_regexp_compile.match(s)\<close> for
  \<^verbatim>\<open>^([\w_]+)\(([\$\w\.\-_ =,]*)\)$\<close>: the two groups. \<^verbatim>\<open>$\<close> matches at the end
  of the string and before a newline that ends it.
\<close>

definition match_call :: "string \<Rightarrow> (string \<times> string) option" where
  "match_call s =
     (if takeWhile is_word s = [] then None
      else (case dropWhile is_word s of
              [] \<Rightarrow> None
            | p # r2 \<Rightarrow>
                if p = CHR ''(''
                   \<and> (dropWhile is_arg_char r2 = '')''
                        \<or> dropWhile is_arg_char r2 = [CHR '')'', CHR 0x0A])
                then Some (takeWhile is_word s, takeWhile is_arg_char r2)
                else None))"

text \<open>
  \<^verbatim>\<open>ast.literal_eval\<close> belongs to the interpreter and is a parameter of the model.
  \<^verbatim>\<open>parse_string_value\<close> is applied to pieces of the argument text of a call only,
  which has no quote, bracket, brace or parenthesis: there a literal is \<^verbatim>\<open>None\<close>,
  a boolean or a number. \<open>None\<close> stands for \<^verbatim>\<open>ValueError\<close> and
  \<^verbatim>\<open>SyntaxError\<close>.
\<close>

datatype literal = LNone | LBool bool | LInt int

fun literal_val :: "literal \<Rightarrow> pyval" where
  "literal_val LNone = PNone"
| "literal_val (LBool b) = PBool b"
| "literal_val (LInt i) = PInt i"

type_synonym literal_eval = "string \<Rightarrow> literal option"

definition parse_string_value :: "literal_eval \<Rightarrow> string \<Rightarrow> pyval" where
  "parse_string_value lev str_value =
     (case lev str_value of Some l \<Rightarrow> literal_val l | None \<Rightarrow> PStr str_value)"

record function_meta =
  func_name :: string
  args :: "pyval list"
  kwargs :: "(pyval \<times> pyval) list"

text \<open>
  The loop over \<^verbatim>\<open>args_list\<close>. \<^verbatim>\<open>key, value = arg.split('=')\<close> unpacks a list
  that must have two elements; with any other number Python raises \<^verbatim>\<open>ValueError\<close>.
\<close>

fun parse_args :: "literal_eval \<Rightarrow> string list \<Rightarrow> function_meta \<Rightarrow> exn + function_meta" where
  "parse_args lev [] m = Inr m"
| "parse_args lev (arg # rest) m =
     (if CHR ''='' \<in> set arg
      then (case split_on CHR ''='' arg of
              [key, val] \<Rightarrow>
                parse_args lev rest
                  (m\<lparr>kwargs := dict_set (kwargs m) (PStr key) (parse_string_value lev val)\<rparr>)
            | _ \<Rightarrow> Inl ValueError)
      else parse_args lev rest (m\<lparr>args := args m @ [parse_string_value lev arg]\<rparr>))"

text \<open>\<^verbatim>\<open>parse_function\<close>; the regular expression raises \<^verbatim>\<open>TypeError\<close> on an
  object that is not a string.\<close>

definition parse_function :: "literal_eval \<Rightarrow> pyval \<Rightarrow> exn + function_meta" where
  "parse_function lev content =
     (case content of
        PStr s \<Rightarrow>
          (case match_call s of
             None \<Rightarrow> Inl (FunctionNotFound (s @ '' not found!''))
           | Some (name, a) \<Rightarrow>
               let function_meta = \<lparr>func_name = name, args = [], kwargs = []\<rparr>;
                   args_str = filter (\<lambda>c. c \<noteq> CHR '' '') a
               in if args_str = [] then Inr function_meta
                  else parse_args lev (split_on CHR '','' args_str) function_meta)
      | _ \<Rightarrow> Inl TypeError)"

text \<open>The dict \<^verbatim>\<open>function_meta\<close> as a value, as it is stored in a Definition.\<close>

definition meta_val :: "function_meta \<Rightarrow> pyval" where
  "meta_val m = PDict [(PStr ''func_name'', PStr (func_name m)),
                       (PStr ''args'', PList (args m)),
                       (PStr ''kwargs'', PDict (kwargs m))]"

text \<open>A sample of \<^verbatim>\<open>ast.literal_eval\<close>, used on concrete inputs: it reads
  \<^verbatim>\<open>None\<close>, \<^verbatim>\<open>True\<close>, \<^verbatim>\<open>False\<close> and one decimal digit.\<close>

definition lev_sample :: literal_eval where
  "lev_sample s =
     (if s = ''None'' then Some LNone
      else if s = ''True'' then Some (LBool True)
      else if s = ''False'' then Some (LBool False)
      else (case s of
              [c] \<Rightarrow> map_option LInt (map_of (zip ''0123456789'' [0, 1, 2, 3, 4, 5, 6, 7, 8, 9]) c)
            | _ \<Rightarrow> None))"

section \<open>Evaluation engine\<close>

text \<open>A bound function: positional and keyword arguments to a result or an exception.\<close>

type_synonym pyfun = "pyval list \<Rightarrow> (string \<times> pyval) list \<Rightarrow> exn + pyval"

text \<open>
  What the module takes from outside: \<^verbatim>\<open>ast.literal_eval\<close>, \<^verbatim>\<open>repr\<close> for the
  text of lists and dicts, and \<^verbatim>\<open>ModuleUtils.search_conf_item(file_path, item_type,
  item_name)\<close> for the two item types.
\<close>

record interp =
  literal_eval :: literal_eval
  repr :: "pyval \<Rightarrow> string"
  search_variable :: "string \<Rightarrow> string \<Rightarrow> exn + pyval"
  search_function :: "string \<Rightarrow> string \<Rightarrow> exn + pyfun"

text \<open>The fields of a \<^verbatim>\<open>TestCaseParser\<close>.\<close>

record parser =
  bound_variables :: "string \<rightharpoonup> pyval"
  bound_functions :: "string \<rightharpoonup> pyfun"
  file_path :: "string option"

definition not_defined :: "string \<Rightarrow> string \<Rightarrow> exn" where
  "not_defined item_name item_type =
     ParamsError (item_name @ '' is not defined in bind '' @ item_type @ ''s!'')"

text \<open>
  \<^verbatim>\<open>_get_bind_item\<close> for the item type \<^verbatim>\<open>"variable"\<close> and for \<^verbatim>\<open>"function"\<close>:
  the bound table first, then the search in the preference file, where a failed
  \<^verbatim>\<open>assert\<close> and \<^verbatim>\<open>FunctionNotFound\<close> become \<^verbatim>\<open>ParamsError\<close>.
\<close>

definition get_bind_variable :: "interp \<Rightarrow> parser \<Rightarrow> string \<Rightarrow> exn + pyval" where
  "get_bind_variable X P variable_name =
     (case bound_variables P variable_name of
        Some v \<Rightarrow> Inr v
      | None \<Rightarrow>
          (case file_path P of
             None \<Rightarrow> Inl (not_defined variable_name ''variable'')
           | Some fp \<Rightarrow>
               (case search_variable X fp variable_name of
                  Inl AssertionError \<Rightarrow> Inl (not_defined variable_name ''variable'')
                | Inl (FunctionNotFound m) \<Rightarrow> Inl (not_defined variable_name ''variable'')
                | Inl e \<Rightarrow> Inl e
                | Inr v \<Rightarrow> Inr v)))"

definition get_bind_function :: "interp \<Rightarrow> parser \<Rightarrow> string \<Rightarrow> exn + pyfun" where
  "get_bind_function X P item_name =
     (case bound_functions P item_name of
        Some f \<Rightarrow> Inr f
      | None \<Rightarrow>
          (case file_path P of
             None \<Rightarrow> Inl (not_defined item_name ''function'')
           | Some fp \<Rightarrow>
               (case search_function X fp item_name of
                  Inl AssertionError \<Rightarrow> Inl (not_defined item_name ''function'')
                | Inl (FunctionNotFound m) \<Rightarrow> Inl (not_defined item_name ''function'')
                | Inl e \<Rightarrow> Inl e
                | Inr f \<Rightarrow> Inr f)))"

text \<open>The loop of \<^verbatim>\<open>_eval_content_variables\<close> over \<^verbatim>\<open>variables_list\<close>. Only a
  string has the method \<^verbatim>\<open>replace\<close>.\<close>

fun eval_variables_loop ::
  "interp \<Rightarrow> parser \<Rightarrow> string list \<Rightarrow> pyval \<Rightarrow> log \<Rightarrow> (exn + pyval) \<times> log" where
  "eval_variables_loop X P [] content lg = (Inr content, lg)"
| "eval_variables_loop X P (variable_name # rest) content lg =
     (case get_bind_variable X P variable_name of
        Inl e \<Rightarrow> (Inl e, lg)
      | Inr variable_value \<Rightarrow>
          if py_eq (PStr (CHR ''$'' # variable_name)) content
          then eval_variables_loop X P rest variable_value
                 (lg @ [DebugVariable (CHR ''$'' # variable_name) variable_value])
          else (case content of
                  PStr tmp \<Rightarrow>
                    eval_variables_loop X P rest
                      (PStr (replace1 (CHR ''$'' # variable_name) (py_str (repr X) variable_value) tmp))
                      (lg @ [DebugVariable tmp
                               (PStr (replace1 (CHR ''$'' # variable_name)
                                        (py_str (repr X) variable_value) tmp))])
                | _ \<Rightarrow> (Inl AttributeError, lg)))"

definition eval_content_variables ::
  "interp \<Rightarrow> parser \<Rightarrow> pyval \<Rightarrow> log \<Rightarrow> (exn + pyval) \<times> log" where
  "eval_content_variables X P content lg =
     eval_variables_loop X P (extract_variables content) content lg"

text \<open>\<^verbatim>\<open>func(*args, **kwargs)\<close>: the keyword_items must be strings.\<close>

fun keyword_items :: "(pyval \<times> pyval) list \<Rightarrow> (string \<times> pyval) list option" where
  "keyword_items [] = Some []"
| "keyword_items ((PStr k, v) # kvs) = map_option (\<lambda>r. (k, v) # r) (keyword_items kvs)"
| "keyword_items ((k, v) # kvs) = None"

definition py_call :: "pyfun \<Rightarrow> pyval \<Rightarrow> pyval \<Rightarrow> exn + pyval" where
  "py_call func a kw =
     (case a of
        PList xs \<Rightarrow>
          (case kw of
             PDict d \<Rightarrow> (case keyword_items d of None \<Rightarrow> Inl TypeError | Some ks \<Rightarrow> func xs ks)
           | _ \<Rightarrow> Inl TypeError)
      | _ \<Rightarrow> Inl TypeError)"

text \<open>Bounds on the length of the strings in a value, for the termination of the engine.\<close>

fun list_max :: "nat list \<Rightarrow> nat" where
  "list_max [] = 0"
| "list_max (n # ns) = max n (list_max ns)"

primrec str_bound :: "pyval \<Rightarrow> nat" where
  "str_bound PNone = 0"
| "str_bound (PBool b) = 0"
| "str_bound (PInt i) = 0"
| "str_bound (PStr s) = Suc (length s)"
| "str_bound (PList xs) = Suc (list_max (map str_bound xs))"
| "str_bound (PDict kvs) =
     Suc (list_max (map (\<lambda>p. max (fst p) (snd p)) (map (map_prod str_bound str_bound) kvs)))"

definition items_bound :: "(pyval \<times> pyval) list \<Rightarrow> nat" where
  "items_bound kvs =
     list_max (map (\<lambda>p. max (fst p) (snd p)) (map (map_prod str_bound str_bound) kvs))"

lemma items_bound_simps:
  "items_bound [] = 0"
  "items_bound (kv # kvs) = max (max (str_bound (fst kv)) (str_bound (snd kv))) (items_bound kvs)"
  by (simp_all add: items_bound_def)

lemma list_max_append: "list_max (xs @ ys) = max (list_max xs) (list_max ys)"
  by (induction xs) auto

lemma list_max_le: "(\<forall>x\<in>set xs. x \<le> n) \<Longrightarrow> list_max xs \<le> n"
  by (induction xs) auto

lemma split_on_nonempty: "split_on c s \<noteq> []"
  by (induction s) (auto split: list.splits)

lemma split_on_length: "x \<in> set (split_on c s) \<Longrightarrow> length x \<le> length s"
proof (induction s arbitrary: x)
  case Nil
  then show ?case by simp
next
  case (Cons a s)
  show ?case
  proof (cases "a = c")
    case True
    with Cons show ?thesis by (auto simp: le_SucI)
  next
    case False
    obtain w ws where w: "split_on c s = w # ws"
      using split_on_nonempty [of c s] by (cases "split_on c s") auto
    with False Cons.prems have "x = a # w \<or> x \<in> set ws" by simp
    moreover have "length w \<le> length s" using Cons.IH [of w] w by simp
    moreover have "x \<in> set ws \<Longrightarrow> length x \<le> length s" using Cons.IH [of x] w by simp
    ultimately show ?thesis by auto
  qed
qed

lemma str_bound_parse_string_value:
  "str_bound (parse_string_value lev s) \<le> Suc (length s)"
  by (cases "lev s"; cases "the (lev s)") (auto simp: parse_string_value_def)

lemma items_bound_dict_set:
  "items_bound (dict_set d k v) \<le> max (items_bound d) (max (str_bound k) (str_bound v))"
  by (induction d) (auto simp: items_bound_simps)

lemma parse_args_bound:
  "parse_args lev xs m = Inr m' \<Longrightarrow> \<forall>x\<in>set xs. length x \<le> n \<Longrightarrow>
   list_max (map str_bound (args m)) \<le> Suc n \<Longrightarrow> items_bound (kwargs m) \<le> Suc n \<Longrightarrow>
   list_max (map str_bound (args m')) \<le> Suc n \<and> items_bound (kwargs m') \<le> Suc n"
proof (induction xs arbitrary: m)
  case Nil
  then show ?case by simp
next
  case (Cons arg rest)
  have len: "length arg \<le> n" using Cons.prems(2) by simp
  show ?case
  proof (cases "CHR ''='' \<in> set arg")
    case False
    let ?m = "m\<lparr>args := args m @ [parse_string_value lev arg]\<rparr>"
    have "str_bound (parse_string_value lev arg) \<le> Suc n"
      using str_bound_parse_string_value [of lev arg] len by simp
    then have "list_max (map str_bound (args ?m)) \<le> Suc n"
      using Cons.prems(3) by (simp add: list_max_append)
    moreover have "parse_args lev rest ?m = Inr m'" using Cons.prems(1) False by simp
    ultimately show ?thesis using Cons.IH [of ?m] Cons.prems by simp
  next
    case True
    then obtain key val where kv: "split_on CHR ''='' arg = [key, val]"
      using Cons.prems(1) by (auto split: list.splits)
    let ?m = "m\<lparr>kwargs := dict_set (kwargs m) (PStr key) (parse_string_value lev val)\<rparr>"
    have "length key \<le> length arg" "length val \<le> length arg"
      using split_on_length [of key "CHR ''=''" arg] split_on_length [of val "CHR ''=''" arg] kv
      by simp_all
    then have "str_bound (PStr key) \<le> Suc n" "str_bound (parse_string_value lev val) \<le> Suc n"
      using str_bound_parse_string_value [of lev val] len by simp_all
    then have "items_bound (kwargs ?m) \<le> Suc n"
      using items_bound_dict_set [of "kwargs m" "PStr key" "parse_string_value lev val"]
        Cons.prems(4) by simp
    moreover have "parse_args lev rest ?m = Inr m'" using Cons.prems(1) True kv by simp
    ultimately show ?thesis using Cons.IH [of ?m] Cons.prems by simp
  qed
qed

lemma match_call_length:
  assumes "match_call t = Some (name, a)"
  shows "length a + 3 \<le> length t"
proof -
  from assms obtain p r2 r3 where n: "takeWhile is_word t \<noteq> []"
    and d1: "dropWhile is_word t = p # r2"
    and d2: "dropWhile is_arg_char r2 = CHR '')'' # r3"
    and a: "a = takeWhile is_arg_char r2"
    unfolding match_call_def by (auto split: list.splits if_splits)
  have "length (takeWhile is_word t) + Suc (length r2) = length t"
    using arg_cong [OF takeWhile_dropWhile_id [of is_word t], of length]
    by (simp only: d1 length_append length_Cons)
  moreover have "length (takeWhile is_arg_char r2) + Suc (length r3) = length r2"
    using arg_cong [OF takeWhile_dropWhile_id [of is_arg_char r2], of length]
    by (simp only: d2 length_append length_Cons)
  moreover have "0 < length (takeWhile is_word t)"
    using n by simp
  ultimately show ?thesis unfolding a by linarith
qed

lemma parse_function_bound:
  assumes "parse_function lev (PStr t) = Inr m"
  shows "Suc (list_max (map str_bound (args m))) < length t"
    and "Suc (items_bound (kwargs m)) < length t"
proof -
  from assms obtain name a where mc: "match_call t = Some (name, a)"
    by (auto simp: parse_function_def split: option.splits)
  let ?s = "filter (\<lambda>c. c \<noteq> CHR '' '') a"
  let ?m0 = "\<lparr>func_name = name, args = [], kwargs = []\<rparr>"
  have la: "Suc (length ?s) + 2 \<le> length t"
    using match_call_length [OF mc] length_filter_le [of "\<lambda>c. c \<noteq> CHR '' ''" a]
    by linarith
  have "list_max (map str_bound (args m)) \<le> Suc (length ?s)
        \<and> items_bound (kwargs m) \<le> Suc (length ?s)"
  proof (cases "?s = []")
    case True
    with assms mc have "m = ?m0" by (simp add: parse_function_def)
    then show ?thesis by (simp add: items_bound_simps)
  next
    case False
    with assms mc have pa: "parse_args lev (split_on CHR '','' ?s) ?m0 = Inr m"
      by (simp add: parse_function_def)
    show ?thesis
      by (rule parse_args_bound [OF pa]) (auto simp: split_on_length items_bound_simps)
  qed
  then show "Suc (list_max (map str_bound (args m))) < length t"
    and "Suc (items_bound (kwargs m)) < length t"
    using la by linarith+
qed

lemma findall_function_length:
  "t \<in> set (findall_function s) \<Longrightarrow> length t \<le> length s"
proof (induction s arbitrary: t rule: findall_function.induct)
  case 1
  then show ?case by simp
next
  case (2 c cs)
  show ?case
  proof (cases "c = CHR ''$''")
    case False
    with 2 show ?thesis by (auto simp: le_SucI)
  next
    case True
    show ?thesis
    proof (cases "match_function_token cs")
      case None
      with True 2 show ?thesis by (auto simp: le_SucI)
    next
      case (Some gr)
      obtain g r where gr: "gr = (g, r)" by (cases gr)
      have len: "length g + length r + 2 = length cs"
        using match_function_token_length Some gr by simp
      from True Some gr "2.prems" have "t = g \<or> t \<in> set (findall_function r)" by simp
      moreover have "t \<in> set (findall_function r) \<Longrightarrow> length t \<le> length r"
        using "2.IH"(2) True Some gr by auto
      ultimately show ?thesis using len by auto
    qed
  qed
qed

lemma strip_length: "length (strip s) \<le> length s"
proof -
  have "length (strip s) \<le> length (dropWhile is_space s)"
    unfolding strip_def using length_dropWhile_le [of is_space "rev (dropWhile is_space s)"]
    by simp
  also have "\<dots> \<le> length s" by (rule length_dropWhile_le)
  finally show ?thesis .
qed

lemma extract_functions_bound:
  "list_max (map length (extract_functions (PStr (strip s)))) < Suc (length s)"
proof -
  have "\<forall>n\<in>set (map length (findall_function (strip s))). n \<le> length s"
    using findall_function_length [of _ "strip s"] strip_length [of s]
    by (auto intro: order_trans)
  then show ?thesis
    using list_max_le [of "map length (findall_function (strip s))" "length s"]
    by (simp add: extract_functions_def re_findall_def less_Suc_eq_le)
qed

function eval_content_with_bind_actions ::
    "interp \<Rightarrow> parser \<Rightarrow> pyval \<Rightarrow> log \<Rightarrow> (exn + pyval) \<times> log"
  and eval_list ::
    "interp \<Rightarrow> parser \<Rightarrow> pyval list \<Rightarrow> log \<Rightarrow> (exn + pyval list) \<times> log"
  and eval_items ::
    "interp \<Rightarrow> parser \<Rightarrow> (pyval \<times> pyval) list \<Rightarrow> (pyval \<times> pyval) list \<Rightarrow> log
       \<Rightarrow> (exn + (pyval \<times> pyval) list) \<times> log"
  and eval_functions_loop ::
    "interp \<Rightarrow> parser \<Rightarrow> string list \<Rightarrow> pyval \<Rightarrow> log \<Rightarrow> (exn + pyval) \<times> log"
where
  "eval_content_with_bind_actions X P PNone lg = (Inr PNone, lg)"
| "eval_content_with_bind_actions X P (PBool b) lg = (Inr (PBool b), lg)"
| "eval_content_with_bind_actions X P (PInt i) lg = (Inr (PInt i), lg)"
| "eval_content_with_bind_actions X P (PList xs) lg =
     (case eval_list X P xs lg of
        (Inl e, lg') \<Rightarrow> (Inl e, lg')
      | (Inr ys, lg') \<Rightarrow> (Inr (PList ys), lg'))"
| "eval_content_with_bind_actions X P (PDict kvs) lg =
     (case eval_items X P kvs [] lg of
        (Inl e, lg') \<Rightarrow> (Inl e, lg')
      | (Inr evaluated_data, lg') \<Rightarrow> (Inr (PDict evaluated_data), lg'))"
| "eval_content_with_bind_actions X P (PStr s) lg =
     (case eval_functions_loop X P (extract_functions (PStr (strip s))) (PStr (strip s)) lg of
        (Inl e, lg') \<Rightarrow> (Inl e, lg')
      | (Inr content, lg') \<Rightarrow> eval_content_variables X P content lg')"
| "eval_list X P [] lg = (Inr [], lg)"
| "eval_list X P (item # rest) lg =
     (case eval_content_with_bind_actions X P item lg of
        (Inl e, lg1) \<Rightarrow> (Inl e, lg1)
      | (Inr y, lg1) \<Rightarrow>
          (case eval_list X P rest lg1 of
             (Inl e, lg2) \<Rightarrow> (Inl e, lg2)
           | (Inr ys, lg2) \<Rightarrow> (Inr (y # ys), lg2)))"
| "eval_items X P [] evaluated_data lg = (Inr evaluated_data, lg)"
| "eval_items X P (kv # rest) evaluated_data lg =
     (case eval_content_with_bind_actions X P (fst kv) lg of
        (Inl e, lg1) \<Rightarrow> (Inl e, lg1)
      | (Inr eval_key, lg1) \<Rightarrow>
          (case eval_content_with_bind_actions X P (snd kv) lg1 of
             (Inl e, lg2) \<Rightarrow> (Inl e, lg2)
           | (Inr eval_value, lg2) \<Rightarrow>
               if hashable eval_key
               then eval_items X P rest (dict_set evaluated_data eval_key eval_value) lg2
               else (Inl TypeError, lg2)))"
| "eval_functions_loop X P [] content lg = (Inr content, lg)"
| "eval_functions_loop X P (func_content # rest) content lg =
     (case parse_function (literal_eval X) (PStr func_content) of
        Inl e \<Rightarrow> (Inl e, lg)
      | Inr function_meta \<Rightarrow>
          (case eval_content_with_bind_actions X P (PList (args function_meta)) lg of
             (Inl e, lg1) \<Rightarrow> (Inl e, lg1)
           | (Inr a, lg1) \<Rightarrow>
               (case eval_content_with_bind_actions X P (PDict (kwargs function_meta)) lg1 of
                  (Inl e, lg2) \<Rightarrow> (Inl e, lg2)
                | (Inr kw, lg2) \<Rightarrow>
                    (case get_bind_function X P (func_name function_meta) of
                       Inl e \<Rightarrow> (Inl e, lg2)
                     | Inr func \<Rightarrow>
                         (case py_call func a kw of
                            Inl e \<Rightarrow> (Inl e, lg2)
                          | Inr eval_value \<Rightarrow>
                              if py_eq (PStr (''${'' @ func_content @ ''}'')) content
                              then eval_functions_loop X P rest eval_value
                                     (lg2 @ [DebugFunction (''${'' @ func_content @ ''}'') eval_value])
                              else (case content of
                                      PStr tmp \<Rightarrow>
                                        eval_functions_loop X P rest
                                          (PStr (replace1 (''${'' @ func_content @ ''}'')
                                                   (py_str (repr X) eval_value) tmp))
                                          (lg2 @ [DebugFunction tmp
                                                   (PStr (replace1 (''${'' @ func_content @ ''}'')
                                                            (py_str (repr X) eval_value) tmp))])
                                    | _ \<Rightarrow> (Inl AttributeError, lg2)))))))"
  by pat_completeness auto
termination
proof (relation "inv_image (less_than <*lex*> less_than)
    (\<lambda>x. case x of
       Inl (Inl (X, P, v, lg)) \<Rightarrow> (str_bound v, 0)
     | Inl (Inr (X, P, xs, lg)) \<Rightarrow> (list_max (map str_bound xs), Suc (length xs))
     | Inr (Inl (X, P, kvs, d, lg)) \<Rightarrow> (items_bound kvs, Suc (length kvs))
     | Inr (Inr (X, P, ts, c, lg)) \<Rightarrow> (list_max (map length ts), Suc (length ts)))",
    goal_cases)
  case 1
  show ?case by (intro wf_inv_image wf_lex_prod wf_less_than)
next
  case (2 X P xs lg)
  show ?case by simp
next
  case (3 X P kvs lg)
  show ?case by (simp add: items_bound_def)
next
  case (4 X P s lg)
  show ?case using extract_functions_bound [of s] by simp
next
  case (5 X P x xs lg)
  show ?case by (auto simp: max_def)
next
  case (6 X P x xs lg)
  show ?case by (auto simp: max_def)
next
  case (7 X P kv kvs d lg)
  show ?case by (auto simp: items_bound_simps max_def)
next
  case (8 X P kv kvs d lg)
  show ?case by (auto simp: items_bound_simps max_def)
next
  case (9 X P kv kvs d lg)
  show ?case by (auto simp: items_bound_simps max_def)
next
  case (10 X P fc rest c lg m)
  show ?case using parse_function_bound(1) [OF 10(1)] by (auto simp: max_def)
next
  case (11 X P fc rest c lg m)
  show ?case using parse_function_bound(2) [OF 11(1)] by (auto simp: max_def items_bound_def)
next
  case 12
  show ?case by (auto simp: max_def)
next
  case 13
  show ?case by (auto simp: max_def)
qed

text \<open>A sample interpreter and parser, used on concrete inputs.\<close>

definition interp_sample :: interp where
  "interp_sample =
     \<lparr>literal_eval = lev_sample, repr = (\<lambda>v. ''<object>''),
      search_variable = (\<lambda>fp n. Inl (FunctionNotFound n)),
      search_function = (\<lambda>fp n. Inl (FunctionNotFound n))\<rparr>"

definition parser_sample :: parser where
  "parser_sample =
     \<lparr>bound_variables = [''uid'' \<mapsto> PInt 1000],
      bound_functions =
        [''join'' \<mapsto> (\<lambda>xs ks. Inr (PStr (concat (map (py_str (\<lambda>v. ''<object>'')) xs)))),
         ''ref'' \<mapsto> (\<lambda>xs ks. Inr (PStr ''$uid''))],
      file_path = None\<rparr>"

subsection \<open>The scanner as the specification words it\<close>

text \<open>
  What the specification says the scanner returns: the tokens that occur in the text, in
  the order of the positions where they start. A variable token is \<^verbatim>\<open>$\<close> followed by
  word characters, as many as there are: \<open>variable_at t\<close> is the name of the variable token
  at the start of \<open>t\<close>. A function token is \<^verbatim>\<open>${name(args)}\<close>, where the name is one
  or more word characters and the arguments are characters of the restricted class:
  \<open>function_at t\<close> takes as the name the text between \<^verbatim>\<open>${\<close> and the first
  \<^verbatim>\<open>(\<close>, as the arguments the text from there to the first \<^verbatim>\<open>)\<close>, checks the two
  against their classes and checks that \<^verbatim>\<open>}\<close> follows; it gives the body
  \<^verbatim>\<open>name(args)\<close> of the token.
\<close>

definition variable_at :: "string \<Rightarrow> string option" where
  "variable_at t =
     (case t of
        c # r \<Rightarrow> if c = CHR ''$'' \<and> r \<noteq> [] \<and> is_word (hd r)
                 then Some (takeWhile is_word r) else None
      | [] \<Rightarrow> None)"

definition function_at :: "string \<Rightarrow> string option" where
  "function_at t =
     (case t of
        d # b # r \<Rightarrow>
          (let name = takeWhile (\<lambda>c. c \<noteq> CHR ''('') r;
               a = takeWhile (\<lambda>c. c \<noteq> CHR '')'') (drop (Suc (length name)) r)
           in if d = CHR ''$'' \<and> b = CHR ''{'' \<and> name \<noteq> [] \<and> list_all is_word name
                 \<and> list_all is_arg_char a \<and> prefix (name @ ''('' @ a @ '')}'') r
              then Some (name @ ''('' @ a @ '')'') else None)
      | _ \<Rightarrow> None)"

definition occurrences :: "(string \<Rightarrow> string option) \<Rightarrow> string \<Rightarrow> string list" where
  "occurrences at s = List.map_filter (\<lambda>i. at (drop i s)) [0..<length s]"

text \<open>The log entries written by \<^verbatim>\<open>_eval_content_variables\<close>.\<close>

fun is_variable_entry :: "log_entry \<Rightarrow> bool" where
  "is_variable_entry (DebugVariable src v) = True"
| "is_variable_entry e = False"

subsection \<open>The two passes as the specification words them\<close>

text \<open>
  The specification resolves the tokens of a leaf one at a time, leftmost first, and the
  two kinds of token the same way. \<open>splice\<close> puts the value of one token into the leaf: if
  the entire leaf is exactly the token, the value replaces the leaf, with its type;
  otherwise the string form of the value replaces the leftmost occurrence of the token in
  the text, which needs the leaf to be a string still. It also gives the text that the trace
  entry shows as the source.
\<close>

definition splice :: "(pyval \<Rightarrow> string) \<Rightarrow> string \<Rightarrow> pyval \<Rightarrow> pyval \<Rightarrow> exn + string \<times> pyval" where
  "splice rp token v leaf =
     (if leaf = PStr token then Inr (token, v)
      else (case leaf of
              PStr text \<Rightarrow> Inr (text, PStr (replace1 token (py_str rp v) text))
            | _ \<Rightarrow> Inl AttributeError))"

text \<open>
  A pass over the tokens \<open>ts\<close>: each token is resolved to a value by \<open>resolve\<close>, spliced
  into the leaf as the text \<open>text t\<close>, and traced by one entry. The first failure ends the
  pass.
\<close>

fun token_pass ::
  "(string \<Rightarrow> log \<Rightarrow> (exn + pyval) \<times> log) \<Rightarrow> (string \<Rightarrow> string)
     \<Rightarrow> (string \<Rightarrow> pyval \<Rightarrow> log_entry) \<Rightarrow> (pyval \<Rightarrow> string)
     \<Rightarrow> string list \<Rightarrow> pyval \<Rightarrow> log \<Rightarrow> (exn + pyval) \<times> log" where
  "token_pass resolve text entry rp [] leaf lg = (Inr leaf, lg)"
| "token_pass resolve text entry rp (t # ts) leaf lg =
     (case resolve t lg of
        (Inl e, lg1) \<Rightarrow> (Inl e, lg1)
      | (Inr v, lg1) \<Rightarrow>
          (case splice rp (text t) v leaf of
             Inl e \<Rightarrow> (Inl e, lg1)
           | Inr (src, leaf') \<Rightarrow>
               token_pass resolve text entry rp ts leaf' (lg1 @ [entry src leaf'])))"

text \<open>
  The value of a function token of body \<open>body\<close>: the call is parsed, its positional and
  then its keyword arguments are evaluated by \<open>evaluate\<close>, the callable is resolved by
  name and invoked.
\<close>

definition call_function ::
  "interp \<Rightarrow> parser \<Rightarrow> (pyval \<Rightarrow> log \<Rightarrow> (exn + pyval) \<times> log) \<Rightarrow> string \<Rightarrow> log
     \<Rightarrow> (exn + pyval) \<times> log" where
  "call_function X P evaluate body lg =
     (case parse_function (literal_eval X) (PStr body) of
        Inl e \<Rightarrow> (Inl e, lg)
      | Inr call \<Rightarrow>
          (case evaluate (PList (args call)) lg of
             (Inl e, lg1) \<Rightarrow> (Inl e, lg1)
           | (Inr a, lg1) \<Rightarrow>
               (case evaluate (PDict (kwargs call)) lg1 of
                  (Inl e, lg2) \<Rightarrow> (Inl e, lg2)
                | (Inr kw, lg2) \<Rightarrow>
                    (case get_bind_function X P (func_name call) of
                       Inl e \<Rightarrow> (Inl e, lg2)
                     | Inr func \<Rightarrow> (py_call func a kw, lg2)))))"

text \<open>
  Rule 1 of the specification, the function pass over a string leaf, and rule 2, the
  variable pass, which does nothing to a leaf that is no longer a string.
\<close>

definition function_pass ::
  "interp \<Rightarrow> parser \<Rightarrow> (pyval \<Rightarrow> log \<Rightarrow> (exn + pyval) \<times> log) \<Rightarrow> string \<Rightarrow> log
     \<Rightarrow> (exn + pyval) \<times> log" where
  "function_pass X P evaluate s lg =
     token_pass (call_function X P evaluate) (\<lambda>body. ''${'' @ body @ ''}'') DebugFunction
       (repr X) (occurrences function_at s) (PStr s) lg"

definition variable_pass :: "interp \<Rightarrow> parser \<Rightarrow> pyval \<Rightarrow> log \<Rightarrow> (exn + pyval) \<times> log" where
  "variable_pass X P leaf lg =
     (case leaf of
        PStr s \<Rightarrow>
          token_pass (\<lambda>name l. (get_bind_variable X P name, l)) (\<lambda>name. CHR ''$'' # name)
            DebugVariable (repr X) (occurrences variable_at s) leaf lg
      | _ \<Rightarrow> (Inr leaf, lg))"

section \<open>Definition store and resolution\<close>

text \<open>
  The loop of \<^verbatim>\<open>substitute_variables_with_mapping\<close> over \<^verbatim>\<open>mapping.items()\<close> for
  a content that is not a container: a content equal to a variable becomes its value, of
  any type; otherwise \<^verbatim>\<open>content.replace(var, str(value))\<close>, which only a string
  has, and which takes only a string as \<^verbatim>\<open>var\<close>.
\<close>

fun substitute_string :: "(pyval \<Rightarrow> string) \<Rightarrow> (pyval \<times> pyval) list \<Rightarrow> pyval \<Rightarrow> exn + pyval" where
  "substitute_string rp [] content = Inr content"
| "substitute_string rp ((var, val) # rest) content =
     (if py_eq content var then substitute_string rp rest val
      else (case content of
              PStr s \<Rightarrow>
                (case var of
                   PStr v \<Rightarrow> substitute_string rp rest (PStr (replace_all v (py_str rp val) s))
                 | _ \<Rightarrow> Inl TypeError)
            | _ \<Rightarrow> Inl AttributeError))"

lemma size_prod_pyval:
  "size_prod size size = (\<lambda>kv :: pyval \<times> pyval. Suc (size (fst kv) + size (snd kv)))"
  by (simp add: fun_eq_iff)

function substitute_variables_with_mapping ::
    "(pyval \<Rightarrow> string) \<Rightarrow> (pyval \<times> pyval) list \<Rightarrow> pyval \<Rightarrow> exn + pyval"
  and substitute_list ::
    "(pyval \<Rightarrow> string) \<Rightarrow> (pyval \<times> pyval) list \<Rightarrow> pyval list \<Rightarrow> exn + pyval list"
  and substitute_items ::
    "(pyval \<Rightarrow> string) \<Rightarrow> (pyval \<times> pyval) list \<Rightarrow> (pyval \<times> pyval) list
       \<Rightarrow> (pyval \<times> pyval) list \<Rightarrow> exn + (pyval \<times> pyval) list"
where
  "substitute_variables_with_mapping rp mapping (PBool b) = Inr (PBool b)"
| "substitute_variables_with_mapping rp mapping (PInt i) = Inr (PInt i)"
| "substitute_variables_with_mapping rp mapping PNone = Inr PNone"
| "substitute_variables_with_mapping rp mapping (PList xs) =
     (if xs = [] then Inr (PList [])
      else (case substitute_list rp mapping xs of
              Inl e \<Rightarrow> Inl e
            | Inr ys \<Rightarrow> Inr (PList ys)))"
| "substitute_variables_with_mapping rp mapping (PDict kvs) =
     (if kvs = [] then Inr (PDict [])
      else (case substitute_items rp mapping kvs [] of
              Inl e \<Rightarrow> Inl e
            | Inr substituted_data \<Rightarrow> Inr (PDict substituted_data)))"
| "substitute_variables_with_mapping rp mapping (PStr s) =
     (if s = [] then Inr (PStr []) else substitute_string rp mapping (PStr s))"
| "substitute_list rp mapping [] = Inr []"
| "substitute_list rp mapping (item # rest) =
     (case substitute_variables_with_mapping rp mapping item of
        Inl e \<Rightarrow> Inl e
      | Inr y \<Rightarrow>
          (case substitute_list rp mapping rest of
             Inl e \<Rightarrow> Inl e
           | Inr ys \<Rightarrow> Inr (y # ys)))"
| "substitute_items rp mapping [] substituted_data = Inr substituted_data"
| "substitute_items rp mapping (kv # rest) substituted_data =
     (case substitute_variables_with_mapping rp mapping (fst kv) of
        Inl e \<Rightarrow> Inl e
      | Inr eval_key \<Rightarrow>
          (case substitute_variables_with_mapping rp mapping (snd kv) of
             Inl e \<Rightarrow> Inl e
           | Inr eval_value \<Rightarrow>
               if hashable eval_key
               then substitute_items rp mapping rest (dict_set substituted_data eval_key eval_value)
               else Inl TypeError))"
  by pat_completeness auto
termination
  by (relation "measure (\<lambda>x. case x of
        Inl (rp, m, v) \<Rightarrow> size v
      | Inr (Inl (rp, m, xs)) \<Rightarrow> size_list size xs
      | Inr (Inr (rp, m, kvs, d)) \<Rightarrow>
          size_list (\<lambda>kv. Suc (size (fst kv) + size (snd kv))) kvs)")
     (auto simp: size_prod_pyval)


text \<open>
  The class attributes of \<^verbatim>\<open>YamlCaseLoader\<close> and the log: the state every function of
  the loader works on. \<^verbatim>\<open>overall_def_dict\<close> has the two keys \<^verbatim>\<open>api\<close> and
  \<^verbatim>\<open>suite\<close>; a definition is stored under the name of its \<^verbatim>\<open>def\<close> call.
\<close>

record loader =
  overall_def_dict :: "string \<rightharpoonup> (string \<rightharpoonup> pyval)"
  testcases_cache_mapping :: "string \<rightharpoonup> pyval list"
  logger :: log

definition loader_init :: loader where
  "loader_init =
     \<lparr>overall_def_dict = [''api'' \<mapsto> Map.empty, ''suite'' \<mapsto> Map.empty],
      testcases_cache_mapping = Map.empty, logger = []\<rparr>"

text \<open>\<^verbatim>\<open>YamlCaseLoader.overall_def_dict.get(ref_type, {}).get(name)\<close>.\<close>

definition lookup_definition :: "loader \<Rightarrow> string \<Rightarrow> string \<Rightarrow> pyval" where
  "lookup_definition st name ref_type =
     (case overall_def_dict st ref_type of
        None \<Rightarrow> PNone
      | Some defs \<Rightarrow> (case defs name of None \<Rightarrow> PNone | Some block \<Rightarrow> block))"

definition get_test_definition :: "loader \<Rightarrow> string \<Rightarrow> string \<Rightarrow> exn + pyval" where
  "get_test_definition st name ref_type =
     (let block = lookup_definition st name ref_type
      in if \<not> truthy block
         then (let err_msg = name @ '' not found!''
               in if ref_type = ''api'' then Inl (ApiNotFound err_msg)
                  else Inl (SuiteNotFound err_msg))
         else Inr block)"

text \<open>\<^verbatim>\<open>x.get(k)\<close> and \<^verbatim>\<open>x.get(k, default)\<close>: only a dict has the method.\<close>

definition py_get :: "pyval \<Rightarrow> pyval \<Rightarrow> pyval \<Rightarrow> exn + pyval" where
  "py_get x k dflt =
     (case x of
        PDict kvs \<Rightarrow> (case dict_get kvs k of None \<Rightarrow> Inr dflt | Some v \<Rightarrow> Inr v)
      | _ \<Rightarrow> Inl AttributeError)"

text \<open>\<^verbatim>\<open>x[k]\<close> on a dict.\<close>

definition py_item :: "pyval \<Rightarrow> pyval \<Rightarrow> exn + pyval" where
  "py_item x k =
     (case x of
        PDict kvs \<Rightarrow> (case dict_get kvs k of None \<Rightarrow> Inl KeyError | Some v \<Rightarrow> Inr v)
      | _ \<Rightarrow> Inl TypeError)"

text \<open>\<^verbatim>\<open>len(x)\<close>.\<close>

fun py_len :: "pyval \<Rightarrow> exn + nat" where
  "py_len (PList xs) = Inr (length xs)"
| "py_len (PDict kvs) = Inr (length kvs)"
| "py_len (PStr s) = Inr (length s)"
| "py_len v = Inl TypeError"

text \<open>\<^verbatim>\<open>block.get("function_meta").get("args", [])\<close>.\<close>

definition def_args_of :: "pyval \<Rightarrow> exn + pyval" where
  "def_args_of block =
     (case py_get block (PStr ''function_meta'') PNone of
        Inl e \<Rightarrow> Inl e
      | Inr function_meta \<Rightarrow> py_get function_meta (PStr ''args'') (PList []))"

text \<open>
  The loop that builds \<^verbatim>\<open>args_mapping\<close>: the declared parameter at each index is
  mapped to the argument of the call at that index, unless the two are equal. The lengths
  are equal when the loop runs; \<^verbatim>\<open>call_args[index]\<close> past the end would be an
  \<^verbatim>\<open>IndexError\<close>.
\<close>

fun args_mapping_loop ::
    "pyval list \<Rightarrow> pyval list \<Rightarrow> (pyval \<times> pyval) list \<Rightarrow> exn + (pyval \<times> pyval) list" where
  "args_mapping_loop [] call_args args_mapping = Inr args_mapping"
| "args_mapping_loop (item # rest) [] args_mapping = Inl (OtherError ''IndexError'')"
| "args_mapping_loop (item # rest) (call_arg # call_rest) args_mapping =
     (if py_eq call_arg item then args_mapping_loop rest call_rest args_mapping
      else if hashable item
      then args_mapping_loop rest call_rest (dict_set args_mapping item call_arg)
      else Inl TypeError)"

definition get_block_by_name :: "interp \<Rightarrow> loader \<Rightarrow> pyval \<Rightarrow> string \<Rightarrow> exn + pyval" where
  "get_block_by_name X st ref_call ref_type =
     (case parse_function (literal_eval X) ref_call of
        Inl e \<Rightarrow> Inl e
      | Inr function_meta \<Rightarrow>
          let call_args = args function_meta
          in (case get_test_definition st (func_name function_meta) ref_type of
                Inl e \<Rightarrow> Inl e
              | Inr block \<Rightarrow>
                  (case def_args_of block of
                     Inl e \<Rightarrow> Inl e
                   | Inr def_args \<Rightarrow>
                       (case py_len def_args of
                          Inl e \<Rightarrow> Inl e
                        | Inr n \<Rightarrow>
                            if length call_args \<noteq> n
                            then Inl (ParamsError ''call args mismatch defined args!'')
                            else (case py_iter def_args of
                                    Inl e \<Rightarrow> Inl e
                                  | Inr items \<Rightarrow>
                                      (case args_mapping_loop items call_args [] of
                                         Inl e \<Rightarrow> Inl e
                                       | Inr args_mapping \<Rightarrow>
                                           if args_mapping \<noteq> []
                                           then substitute_variables_with_mapping (repr X)
                                                  args_mapping block
                                           else Inr block))))))"

text \<open>
  \<^verbatim>\<open>xs.extend(it)\<close>: the list \<open>xs\<close> after the call, and the value of the call
  expression, which is \<^verbatim>\<open>None\<close>. Only a list has the method, and the argument must
  be iterable.
\<close>

definition list_extend :: "pyval \<Rightarrow> pyval \<Rightarrow> exn + (pyval \<times> pyval)" where
  "list_extend xs it =
     (case xs of
        PList l \<Rightarrow> (case py_iter it of Inl e \<Rightarrow> Inl e | Inr ys \<Rightarrow> Inr (PList (l @ ys), PNone))
      | _ \<Rightarrow> Inl AttributeError)"

text \<open>
  One of the three merges of \<^verbatim>\<open>_override_block\<close>: the value assigned to the field of
  \<^verbatim>\<open>current_block\<close>. In the last branch it is the value of the expression
  \<^verbatim>\<open>current_pre.extend(def_pre)\<close>; the extended list itself is referenced by nothing
  after \<^verbatim>\<open>current_block.update(def_block)\<close>.
\<close>

definition merge_field :: "pyval \<Rightarrow> pyval \<Rightarrow> exn + pyval" where
  "merge_field def_field current_field =
     (if \<not> truthy def_field then Inr current_field
      else if \<not> truthy current_field then Inr def_field
      else (case list_extend current_field def_field of
              Inl e \<Rightarrow> Inl e
            | Inr (extended, returned) \<Rightarrow> Inr returned))"

text \<open>\<^verbatim>\<open>_override_block(def_block, current_block)\<close>; the result is
  \<^verbatim>\<open>current_block\<close> after the call.\<close>

definition get_or_none :: "(pyval \<times> pyval) list \<Rightarrow> pyval \<Rightarrow> pyval" where
  "get_or_none d k = (case dict_get d k of None \<Rightarrow> PNone | Some v \<Rightarrow> v)"

definition override_block :: "pyval \<Rightarrow> pyval \<Rightarrow> exn + pyval" where
  "override_block def_block current_block =
     (case def_block of
        PDict d \<Rightarrow>
          (case current_block of
             PDict c \<Rightarrow>
               (let def_pre = get_or_none d (PStr ''pre_command'');
                    current_pre = get_or_none c (PStr ''pre_command'');
                    def_post = get_or_none d (PStr ''post_command'');
                    current_post = get_or_none c (PStr ''post_command'');
                    def_verify = get_or_none d (PStr ''verify'');
                    current_verify = get_or_none c (PStr ''verify'');
                    c0 = dict_update c d
                in (case merge_field def_pre current_pre of
                      Inl e \<Rightarrow> Inl e
                    | Inr pre \<Rightarrow>
                        (case merge_field def_post current_post of
                           Inl e \<Rightarrow> Inl e
                         | Inr post \<Rightarrow>
                             (case merge_field def_verify current_verify of
                                Inl e \<Rightarrow> Inl e
                              | Inr verify \<Rightarrow>
                                  Inr (PDict (dict_set (dict_set (dict_set c0
                                         (PStr ''pre_command'') pre)
                                         (PStr ''post_command'') post)
                                         (PStr ''verify'') verify))))))
           | _ \<Rightarrow> Inl AttributeError)
      | _ \<Rightarrow> Inl AttributeError)"

text \<open>A sample store with one api definition of two parameters.\<close>

definition loader_sample :: loader where
  "loader_sample =
     loader_init\<lparr>overall_def_dict :=
       [''api'' \<mapsto> [''login'' \<mapsto> PDict
          [(PStr ''pre_command'', PList [PStr ''open $user'']),
           (PStr ''function_meta'',
            meta_val \<lparr>func_name = ''login'', args = [PStr ''$user'', PStr ''$pwd''], kwargs = []\<rparr>)]],
        ''suite'' \<mapsto> Map.empty]\<rparr>"

section \<open>Properties\<close>

lemmas sample_simps = interp_sample_def parser_sample_def strip_def is_space_def
      extract_functions_def extract_variables_def re_findall_def eval_content_variables_def
      match_function_token_def is_word_def word_chars_def is_arg_char_def parse_function_def
      match_call_def parse_string_value_def lev_sample_def get_bind_function_def
      get_bind_variable_def py_call_def py_eq_def

lemma findall_function_no_dollar: "CHR ''$'' \<notin> set s \<Longrightarrow> findall_function s = []"
  by (induction s) auto

lemma findall_variable_no_dollar: "CHR ''$'' \<notin> set s \<Longrightarrow> findall_variable s = []"
  by (induction s) auto

lemma set_strip: "set (strip s) \<subseteq> set s"
proof -
  have "set (strip s) \<subseteq> set (dropWhile is_space s)"
    unfolding strip_def using set_dropWhileD [of _ is_space "rev (dropWhile is_space s)"] by auto
  also have "\<dots> \<subseteq> set s" using set_dropWhileD [of _ is_space s] by auto
  finally show ?thesis .
qed

text \<open>
  C3 (as amended). A string leaf without \<^verbatim>\<open>$\<close> evaluates to the string stripped of
  the whitespace at both ends, for any bindings, and nothing is logged: the engine applies
  \<^verbatim>\<open>content.strip()\<close> before it looks for tokens.
\<close>

theorem eval_plain_string:
  assumes "CHR ''$'' \<notin> set s"
  shows "eval_content_with_bind_actions X P (PStr s) lg = (Inr (PStr (strip s)), lg)"
proof -
  have "CHR ''$'' \<notin> set (strip s)" using assms set_strip [of s] by auto
  then show ?thesis
    by (simp add: extract_functions_def extract_variables_def re_findall_def
        eval_content_variables_def findall_function_no_dollar findall_variable_no_dollar)
qed

theorem eval_plain_string_witness:
  "CHR ''$'' \<notin> set ''/api  '' \<and>
   eval_content_with_bind_actions interp_sample parser_sample (PStr ''/api  '') []
     = (Inr (PStr ''/api''), [])"
  using eval_plain_string [of "''/api  ''" interp_sample parser_sample "[]"]
  by (simp add: strip_def is_space_def)

text \<open>The claim as stated fails on a string that starts with a space.\<close>

theorem eval_plain_string_counterexample:
  "CHR ''$'' \<notin> set '' a'' \<and>
   eval_content_with_bind_actions interp_sample parser_sample (PStr '' a'') []
     = (Inr (PStr ''a''), []) \<and> PStr ''a'' \<noteq> PStr '' a''"
  by (simp add: strip_def is_space_def extract_functions_def extract_variables_def
      re_findall_def eval_content_variables_def)

lemma eval_plain_string_example:
  "eval_content_with_bind_actions interp_sample parser_sample
     (PStr [CHR 0xA0, CHR ''a'', CHR 0x85, CHR 0x0A]) []
   = (Inr (PStr ''a''), [])"
  by (simp add: strip_def is_space_def extract_functions_def extract_variables_def
      re_findall_def eval_content_variables_def)

text \<open>
  C6. An argument with two \<^verbatim>\<open>=\<close> is accepted by the grammar of a call, and
  \<^verbatim>\<open>parse_function\<close> raises \<^verbatim>\<open>ValueError\<close> on it, whatever
  \<^verbatim>\<open>ast.literal_eval\<close> does: the argument is split at every \<^verbatim>\<open>=\<close> and the
  three parts do not unpack into a key and a value.
\<close>

theorem parse_function_two_equals:
  "parse_function lev (PStr ''f(a=b=c)'') = Inl ValueError"
  by (simp add: parse_function_def match_call_def is_word_def word_chars_def is_arg_char_def)

subsection \<open>Content scanner\<close>

lemma occurrences_Nil: "occurrences at [] = []"
  by (simp add: occurrences_def List.map_filter_simps)

lemma occurrences_Cons:
  "occurrences at (c # cs) =
     (case at (c # cs) of Some x \<Rightarrow> [x] | None \<Rightarrow> []) @ occurrences at cs"
proof -
  have "[0..<length (c # cs)] = 0 # map Suc [0..<length cs]"
    by (simp add: upt_conv_Cons map_Suc_upt del: upt_Suc)
  moreover have "List.map_filter (\<lambda>i. at (drop i (c # cs))) (map Suc [0..<length cs])
                 = List.map_filter (\<lambda>i. at (drop i cs)) [0..<length cs]"
    by (simp add: List.map_filter_def filter_map o_def)
  ultimately show ?thesis
    by (simp add: occurrences_def split: option.splits)
qed

lemma not_word_special:
  "\<not> is_word CHR ''$''" "\<not> is_word CHR ''(''" "\<not> is_word CHR '')''"
  "\<not> is_word CHR ''{''" "\<not> is_word CHR ''}''"
  "\<not> is_arg_char CHR ''(''" "\<not> is_arg_char CHR '')''"
  "\<not> is_arg_char CHR ''{''" "\<not> is_arg_char CHR ''}''"
  by (simp_all add: is_word_def is_arg_char_def word_chars_def)

lemma is_word_arg_char: "is_word c \<Longrightarrow> is_arg_char c"
  by (simp add: is_arg_char_def)

lemma occurrences_variable_skip:
  "\<forall>c\<in>set p. is_word c \<Longrightarrow> occurrences variable_at (p @ r) = occurrences variable_at r"
proof (induction p)
  case Nil
  then show ?case by simp
next
  case (Cons c p)
  then have "c \<noteq> CHR ''$''" using not_word_special(1) by auto
  then have "variable_at (c # p @ r) = None" by (simp add: variable_at_def)
  then show ?case using Cons by (simp add: occurrences_Cons)
qed

lemma findall_variable_occurrences: "findall_variable s = occurrences variable_at s"
proof (induction s rule: findall_variable.induct)
  case 1
  show ?case by (simp add: occurrences_Nil)
next
  case (2 c cs)
  show ?case
  proof (cases "c = CHR ''$'' \<and> takeWhile is_word cs \<noteq> []")
    case True
    then have at: "variable_at (c # cs) = Some (takeWhile is_word cs)"
      by (cases cs) (auto simp: variable_at_def split: if_splits)
    have "occurrences variable_at cs
          = occurrences variable_at (takeWhile is_word cs @ dropWhile is_word cs)"
      by simp
    also have "\<dots> = occurrences variable_at (dropWhile is_word cs)"
      by (rule occurrences_variable_skip) (auto dest: set_takeWhileD)
    finally show ?thesis using True at "2.IH"(1) by (simp add: occurrences_Cons)
  next
    case False
    then have "variable_at (c # cs) = None"
      by (cases cs) (auto simp: variable_at_def)
    then show ?thesis using False "2.IH"(2) by (auto simp: occurrences_Cons)
  qed
qed

text \<open>The shape of a function token.\<close>

lemma match_function_token_shape:
  "match_function_token r = Some (g, r4) \<longleftrightarrow>
     (\<exists>name a. name \<noteq> [] \<and> (\<forall>c\<in>set name. is_word c) \<and> (\<forall>c\<in>set a. is_arg_char c)
        \<and> r = ''{'' @ name @ ''('' @ a @ '')}'' @ r4 \<and> g = name @ ''('' @ a @ '')'')"
  (is "?L \<longleftrightarrow> ?R")
proof
  assume ?L
  then obtain c t p r2 q b where s: "r = c # t" and c: "c = CHR ''{''"
    and n: "takeWhile is_word t \<noteq> []"
    and d1: "dropWhile is_word t = p # r2" and p: "p = CHR ''(''"
    and d2: "dropWhile is_arg_char r2 = q # b # r4" and q: "q = CHR '')''" "b = CHR ''}''"
    and g: "g = takeWhile is_word t @ ''('' @ takeWhile is_arg_char r2 @ '')''"
    unfolding match_function_token_def
    by (auto split: list.splits if_splits)
  have "t = takeWhile is_word t @ dropWhile is_word t" by simp
  moreover have "r2 = takeWhile is_arg_char r2 @ dropWhile is_arg_char r2" by simp
  ultimately have "r = ''{'' @ takeWhile is_word t @ ''('' @ takeWhile is_arg_char r2 @ '')}'' @ r4"
    using s c d1 p d2 q by (metis append_Cons append_Nil)
  then show ?R using n g
    by (intro exI [of _ "takeWhile is_word t"] exI [of _ "takeWhile is_arg_char r2"])
       (auto dest: set_takeWhileD)
next
  assume ?R
  then obtain name a where n: "name \<noteq> []" and w: "\<forall>c\<in>set name. is_word c"
    and ac: "\<forall>c\<in>set a. is_arg_char c"
    and r: "r = ''{'' @ name @ ''('' @ a @ '')}'' @ r4" and g: "g = name @ ''('' @ a @ '')''"
    by blast
  have t1: "takeWhile is_word (name @ CHR ''('' # a @ '')}'' @ r4) = name"
    using w by (simp add: takeWhile_append2 not_word_special)
  have t2: "dropWhile is_word (name @ CHR ''('' # a @ '')}'' @ r4) = CHR ''('' # a @ '')}'' @ r4"
    using w by (simp add: dropWhile_append2 not_word_special)
  have t3: "takeWhile is_arg_char (a @ '')}'' @ r4) = a"
    using ac by (simp add: takeWhile_append2 not_word_special)
  have t4: "dropWhile is_arg_char (a @ '')}'' @ r4) = '')}'' @ r4"
    using ac by (simp add: dropWhile_append2 not_word_special)
  show ?L unfolding match_function_token_def r g using n t1 t2 t3 t4 by simp
qed

lemma takeWhile_until:
  "\<forall>c\<in>set xs. c \<noteq> x \<Longrightarrow> takeWhile (\<lambda>c. c \<noteq> x) (xs @ x # ys) = xs"
  by (induction xs) auto

lemma function_at_iff:
  "function_at t = Some body \<longleftrightarrow>
     (\<exists>name a rest. t = ''${'' @ name @ ''('' @ a @ '')}'' @ rest \<and> body = name @ ''('' @ a @ '')''
        \<and> name \<noteq> [] \<and> list_all is_word name \<and> list_all is_arg_char a)"
  (is "?L \<longleftrightarrow> ?R")
proof
  assume ?L
  then obtain d b r where t: "t = d # b # r"
    unfolding function_at_def by (auto split: list.splits)
  define name where "name = takeWhile (\<lambda>c. c \<noteq> CHR ''('') r"
  define a where "a = takeWhile (\<lambda>c. c \<noteq> CHR '')'') (drop (Suc (length name)) r)"
  from \<open>?L\<close> have c: "d = CHR ''$''" "b = CHR ''{''" "name \<noteq> []" "list_all is_word name"
    "list_all is_arg_char a" "prefix (name @ ''('' @ a @ '')}'') r"
    and body: "body = name @ ''('' @ a @ '')''"
    unfolding function_at_def t name_def a_def by (auto simp: Let_def split: if_splits)
  from c(6) obtain rest where "r = (name @ ''('' @ a @ '')}'') @ rest" by (auto simp: prefix_def)
  then show ?R using t c body by (intro exI [of _ name] exI [of _ a] exI [of _ rest]) simp
next
  assume ?R
  then obtain name a rest where t: "t = ''${'' @ name @ ''('' @ a @ '')}'' @ rest"
    and body: "body = name @ ''('' @ a @ '')''" and n: "name \<noteq> []"
    and w: "list_all is_word name" and ac: "list_all is_arg_char a" by blast
  have n1: "\<forall>c\<in>set name. c \<noteq> CHR ''(''" using w not_word_special(2) by (auto simp: list_all_iff)
  have a1: "\<forall>c\<in>set a. c \<noteq> CHR '')''" using ac not_word_special(7) by (auto simp: list_all_iff)
  have t1: "takeWhile (\<lambda>c. c \<noteq> CHR ''('') (name @ CHR ''('' # a @ '')}'' @ rest) = name"
    using n1 by (rule takeWhile_until)
  have t2: "takeWhile (\<lambda>c. c \<noteq> CHR '')'') (a @ CHR '')'' # CHR ''}'' # rest) = a"
    using a1 by (rule takeWhile_until)
  show ?L unfolding function_at_def t using n w ac t1 t2 body by (simp add: Let_def)
qed

lemma function_at_dollar:
  "function_at (CHR ''$'' # r) = map_option fst (match_function_token r)"
proof (cases "match_function_token r")
  case None
  have "function_at (CHR ''$'' # r) = None"
  proof (rule ccontr)
    assume "function_at (CHR ''$'' # r) \<noteq> None"
    then obtain body where "function_at (CHR ''$'' # r) = Some body" by auto
    then obtain name a rest where "r = ''{'' @ name @ ''('' @ a @ '')}'' @ rest"
      "body = name @ ''('' @ a @ '')''" "name \<noteq> []" "list_all is_word name" "list_all is_arg_char a"
      unfolding function_at_iff by auto
    then have "match_function_token r = Some (body, rest)"
      unfolding match_function_token_shape by (auto simp: list_all_iff)
    then show False using None by simp
  qed
  then show ?thesis using None by simp
next
  case (Some gr)
  obtain g r4 where gr: "gr = (g, r4)" by (cases gr)
  then obtain name a where "name \<noteq> []" "\<forall>c\<in>set name. is_word c" "\<forall>c\<in>set a. is_arg_char c"
    "r = ''{'' @ name @ ''('' @ a @ '')}'' @ r4" "g = name @ ''('' @ a @ '')''"
    using Some match_function_token_shape [of r g r4] by auto
  then have "function_at (CHR ''$'' # r) = Some g"
    unfolding function_at_iff by (auto simp: list_all_iff)
  then show ?thesis using Some gr by simp
qed

lemma function_at_not_dollar: "c \<noteq> CHR ''$'' \<Longrightarrow> function_at (c # t) = None"
  by (simp add: function_at_def split: list.splits)

lemma function_at_not_brace: "t = [] \<or> hd t \<noteq> CHR ''{'' \<Longrightarrow> function_at (c # t) = None"
  by (cases t) (auto simp: function_at_def Let_def)

lemma occurrences_function_skip:
  "\<forall>c\<in>set p. is_arg_char c \<Longrightarrow> r = [] \<or> hd r \<noteq> CHR ''{'' \<Longrightarrow>
   occurrences function_at (p @ r) = occurrences function_at r"
proof (induction p)
  case Nil
  then show ?case by simp
next
  case (Cons c p)
  have "p @ r = [] \<or> hd (p @ r) \<noteq> CHR ''{''"
    using Cons.prems not_word_special(8) by (cases p) auto
  then have "function_at (c # p @ r) = None" by (rule function_at_not_brace)
  then show ?case using Cons by (simp add: occurrences_Cons)
qed

lemma occurrences_function_token:
  assumes "match_function_token cs = Some (g, r4)"
  shows "occurrences function_at cs = occurrences function_at r4"
proof -
  from assms obtain name a where w: "\<forall>c\<in>set name. is_word c"
    and ac: "\<forall>c\<in>set a. is_arg_char c"
    and cs: "cs = ''{'' @ name @ ''('' @ a @ '')}'' @ r4"
    using match_function_token_shape [of cs g r4] by blast
  have "occurrences function_at cs = occurrences function_at (name @ CHR ''('' # a @ '')}'' @ r4)"
    unfolding cs by (simp add: occurrences_Cons function_at_not_dollar)
  also have "\<dots> = occurrences function_at (CHR ''('' # a @ '')}'' @ r4)"
    using w by (intro occurrences_function_skip) (auto simp: is_word_arg_char)
  also have "\<dots> = occurrences function_at (a @ '')}'' @ r4)"
    by (simp add: occurrences_Cons function_at_not_dollar)
  also have "\<dots> = occurrences function_at ('')}'' @ r4)"
    using ac by (intro occurrences_function_skip) auto
  also have "\<dots> = occurrences function_at r4"
    by (simp add: occurrences_Cons function_at_not_dollar)
  finally show ?thesis .
qed

lemma findall_function_occurrences: "findall_function s = occurrences function_at s"
proof (induction s rule: findall_function.induct)
  case 1
  show ?case by (simp add: occurrences_Nil)
next
  case (2 c cs)
  show ?case
  proof (cases "c = CHR ''$''")
    case False
    then show ?thesis using "2.IH"(3) by (simp add: occurrences_Cons function_at_not_dollar)
  next
    case True
    show ?thesis
    proof (cases "match_function_token cs")
      case None
      then show ?thesis using True "2.IH"(1)
        by (simp add: occurrences_Cons function_at_dollar)
    next
      case (Some gr)
      obtain g r where gr: "gr = (g, r)" by (cases gr)
      have "findall_function r = occurrences function_at r"
        using "2.IH"(2) True Some gr by auto
      then show ?thesis
        using True Some gr occurrences_function_token [of cs g r]
        by (simp add: occurrences_Cons function_at_dollar)
    qed
  qed
qed

lemma variable_at_iff:
  "variable_at t = Some name \<longleftrightarrow>
     (\<exists>rest. t = CHR ''$'' # name @ rest \<and> name \<noteq> [] \<and> list_all is_word name
        \<and> (rest = [] \<or> \<not> is_word (hd rest)))"
  (is "?L \<longleftrightarrow> ?R")
proof
  assume ?L
  then obtain r where t: "t = CHR ''$'' # r" and r: "r \<noteq> []" "is_word (hd r)"
    and name: "name = takeWhile is_word r"
    unfolding variable_at_def by (auto split: list.splits if_splits)
  have "name \<noteq> []" using r name by (cases r) auto
  moreover have "list_all is_word name" unfolding name list_all_iff by (auto dest: set_takeWhileD)
  moreover have "dropWhile is_word r = [] \<or> \<not> is_word (hd (dropWhile is_word r))"
    using hd_dropWhile [of is_word r] by auto
  moreover have "t = CHR ''$'' # name @ dropWhile is_word r" using t name by simp
  ultimately show ?R by blast
next
  assume ?R
  then obtain rest where t: "t = CHR ''$'' # name @ rest" and n: "name \<noteq> []"
    and w: "list_all is_word name" and e: "rest = [] \<or> \<not> is_word (hd rest)" by blast
  have "takeWhile is_word rest = []" using e by (cases rest) auto
  then have "takeWhile is_word (name @ rest) = name"
    using w by (simp add: takeWhile_append2 list_all_iff)
  moreover have "is_word (hd (name @ rest))" using n w by (cases name) auto
  ultimately show ?L unfolding variable_at_def t using n by simp
qed


text \<open>
  C9. \<^verbatim>\<open>extract_variables\<close> and \<^verbatim>\<open>extract_functions\<close> are total functions to
  lists: on a value that is not a string both return the empty list, and on a string they
  return the variable names, respectively the function-call bodies, of the tokens that occur
  in it, in the order of the positions where the tokens start. The text \<open>t\<close> starts with
  the variable token of name \<open>name\<close> when it is \<^verbatim>\<open>$\<close>, then \<open>name\<close>, one or more
  word characters, then no further word character; it starts with the function token of
  body \<open>body\<close> when it is \<^verbatim>\<open>${\<close>, then a name of one or more word characters,
  \<^verbatim>\<open>(\<close>, arguments of the class \<^verbatim>\<open>[\$\w\.\-_ =,]\<close>, \<^verbatim>\<open>)\<close> and \<^verbatim>\<open>}\<close>,
  and \<open>body\<close> is the text between the braces.
\<close>

theorem extract_total_in_order:
  "(case content of
      PStr s \<Rightarrow> extract_variables content = occurrences variable_at s
               \<and> extract_functions content = occurrences function_at s
    | _ \<Rightarrow> extract_variables content = [] \<and> extract_functions content = [])
   \<and> (variable_at t = Some name \<longleftrightarrow>
        (\<exists>rest. t = CHR ''$'' # name @ rest \<and> name \<noteq> [] \<and> list_all is_word name
           \<and> (rest = [] \<or> \<not> is_word (hd rest))))
   \<and> (function_at t = Some body \<longleftrightarrow>
        (\<exists>fname a rest. t = ''${'' @ fname @ ''('' @ a @ '')}'' @ rest
           \<and> body = fname @ ''('' @ a @ '')''
           \<and> fname \<noteq> [] \<and> list_all is_word fname \<and> list_all is_arg_char a))"
proof -
  have "case content of
      PStr s \<Rightarrow> extract_variables content = occurrences variable_at s
               \<and> extract_functions content = occurrences function_at s
    | _ \<Rightarrow> extract_variables content = [] \<and> extract_functions content = []"
    by (cases content)
       (simp_all add: extract_variables_def extract_functions_def re_findall_def
          findall_variable_occurrences findall_function_occurrences)
  then show ?thesis using variable_at_iff [of t name] function_at_iff [of t body] by blast
qed

theorem extract_total_in_order_witness:
  "extract_variables (PStr ''$a/$b'') = [''a'', ''b'']
   \<and> extract_functions (PStr ''${f(1,2)}'') = [''f(1,2)'']
   \<and> extract_variables (PInt 5) = [] \<and> extract_functions (PInt 5) = []
   \<and> variable_at ''$a/$b'' = Some ''a''
   \<and> function_at ''${f(1,2)}/'' = Some ''f(1,2)''"
  using extract_total_in_order [of "PStr ''$a/$b''" "''$a/$b''" "''a''" "[]"]
    extract_total_in_order [of "PStr ''${f(1,2)}''" "''${f(1,2)}/''" "[]" "''f(1,2)''"]
    extract_total_in_order [of "PInt 5" "[]" "[]" "[]"]
  by (simp add: occurrences_def List.map_filter_simps upt_rec variable_at_def function_at_def
      is_word_def word_chars_def is_arg_char_def)

lemma extract_variables_example:
  "extract_variables (PStr ''/$var1/$var2'') = [''var1'', ''var2'']
   \<and> extract_variables (PStr [CHR ''$'', CHR 0xE9, CHR ''t'', CHR 0xE9])
       = [[CHR 0xE9, CHR ''t'', CHR 0xE9]]
   \<and> extract_functions (PStr ''/api/${add(1, 2)}?_t=${get_timestamp()}'')
       = [''add(1, 2)'', ''get_timestamp()'']"
  by (simp add: extract_variables_def extract_functions_def re_findall_def is_word_def
      word_chars_def is_arg_char_def match_function_token_def)

subsection \<open>Evaluation engine: order of the passes\<close>

lemma eval_variables_loop_log:
  "\<exists>lv. snd (eval_variables_loop X P ns c lg) = lg @ lv \<and> list_all is_variable_entry lv"
proof (induction ns arbitrary: c lg)
  case Nil
  show ?case by simp
next
  case (Cons n ns)
  show ?case
  proof (cases "get_bind_variable X P n")
    case (Inl e)
    then show ?thesis by simp
  next
    case (Inr v)
    show ?thesis
    proof (cases "py_eq (PStr (CHR ''$'' # n)) c")
      case True
      obtain lv where "snd (eval_variables_loop X P ns v (lg @ [DebugVariable (CHR ''$'' # n) v]))
          = (lg @ [DebugVariable (CHR ''$'' # n) v]) @ lv" "list_all is_variable_entry lv"
        using Cons [of v "lg @ [DebugVariable (CHR ''$'' # n) v]"] by blast
      then show ?thesis using Inr True
        by (intro exI [of _ "DebugVariable (CHR ''$'' # n) v # lv"]) simp
    next
      case False
      show ?thesis
      proof (cases c)
        case (PStr tmp)
        let ?c = "PStr (replace1 (CHR ''$'' # n) (py_str (repr X) v) tmp)"
        obtain lv where "snd (eval_variables_loop X P ns ?c (lg @ [DebugVariable tmp ?c]))
            = (lg @ [DebugVariable tmp ?c]) @ lv" "list_all is_variable_entry lv"
          using Cons [of ?c "lg @ [DebugVariable tmp ?c]"] by blast
        then show ?thesis using Inr False PStr
          by (intro exI [of _ "DebugVariable tmp ?c # lv"]) simp
      qed (use Inr False in simp_all)
    qed
  qed
qed

lemma eval_log_prefix:
  "prefix lg (snd (eval_content_with_bind_actions X P v lg))"
  "prefix lg (snd (eval_list X P xs lg))"
  "prefix lg (snd (eval_items X P kvs d lg))"
  "prefix lg (snd (eval_functions_loop X P ts c lg))"
proof (induction X P v lg and X P xs lg and X P kvs d lg and X P ts c lg
    rule: eval_content_with_bind_actions_eval_list_eval_items_eval_functions_loop.induct)
  case (6 X P s lg)
  obtain r lg' where f: "eval_functions_loop X P (extract_functions (PStr (strip s)))
      (PStr (strip s)) lg = (r, lg')" by force
  then have p: "prefix lg lg'" using 6 by simp
  show ?case
  proof (cases r)
    case (Inl e)
    then show ?thesis using f p by simp
  next
    case (Inr c)
    obtain lv where "snd (eval_content_variables X P c lg') = lg' @ lv"
      using eval_variables_loop_log [of X P "extract_variables c" c lg']
      by (auto simp: eval_content_variables_def)
    then show ?thesis using f p Inr by (auto intro: prefix_order.trans)
  qed
next
  case (8 X P item rest lg)
  then show ?case
    by (auto split: prod.splits sum.splits intro: prefix_order.trans)
next
  case (10 X P kv rest d lg)
  obtain r1 lg1 where e1: "eval_content_with_bind_actions X P (fst kv) lg = (r1, lg1)"
    by force
  then have p1: "prefix lg lg1" using 10(1) by simp
  show ?case
  proof (cases r1)
    case (Inl e)
    then show ?thesis using e1 p1 by simp
  next
    case k: (Inr k)
    obtain r2 lg2 where e2: "eval_content_with_bind_actions X P (snd kv) lg1 = (r2, lg2)"
      by force
    then have p2: "prefix lg lg2"
      using 10(2) [OF e1 [symmetric] k] p1 by (auto intro: prefix_order.trans)
    show ?thesis
    proof (cases r2)
      case (Inl e)
      then show ?thesis using e1 k e2 p2 by simp
    next
      case v: (Inr v)
      show ?thesis
      proof (cases "hashable k")
        case True
        have "prefix lg2 (snd (eval_items X P rest (dict_set d k v) lg2))"
          using 10(3) [OF e1 [symmetric] k e2 [symmetric] v True] .
        then show ?thesis using e1 k e2 v True p2 by (auto intro: prefix_order.trans)
      next
        case False
        then show ?thesis using e1 k e2 v p2 by simp
      qed
    qed
  qed
next
  case (12 X P fc rest c lg)
  show ?case
  proof (cases "parse_function (literal_eval X) (PStr fc)")
    case (Inl e)
    then show ?thesis by simp
  next
    case (Inr m)
    obtain r1 lg1 where e1: "eval_content_with_bind_actions X P (PList (args m)) lg = (r1, lg1)"
      by force
    then have p1: "prefix lg lg1" using 12(1) [OF Inr] by simp
    show ?thesis
    proof (cases r1)
      case (Inl e)
      then show ?thesis using Inr e1 p1 by simp
    next
      case a: (Inr a)
      obtain r2 lg2 where e2: "eval_content_with_bind_actions X P (PDict (kwargs m)) lg1 = (r2, lg2)"
        by force
      then have p2: "prefix lg lg2"
        using 12(2) [OF Inr e1 [symmetric] a] p1 by (auto intro: prefix_order.trans)
      show ?thesis
      proof (cases r2)
        case (Inl e)
        then show ?thesis using Inr e1 a e2 p2 by simp
      next
        case kw: (Inr kw)
        show ?thesis
        proof (cases "get_bind_function X P (func_name m)")
          case (Inl e)
          then show ?thesis using Inr e1 a e2 kw p2 by simp
        next
          case f: (Inr func)
          show ?thesis
          proof (cases "py_call func a kw")
            case (Inl e)
            then show ?thesis using Inr e1 a e2 kw f p2 by simp
          next
            case v: (Inr eval_value)
            note ctx = Inr e1 [symmetric] a e2 [symmetric] kw f v
            show ?thesis
            proof (cases "py_eq (PStr (''${'' @ fc @ ''}'')) c")
              case True
              have "prefix (lg2 @ [DebugFunction (''${'' @ fc @ ''}'') eval_value])
                      (snd (eval_functions_loop X P rest eval_value
                         (lg2 @ [DebugFunction (''${'' @ fc @ ''}'') eval_value])))"
                using 12(3) [OF ctx True] .
              then have "prefix lg (snd (eval_functions_loop X P rest eval_value
                         (lg2 @ [DebugFunction (''${'' @ fc @ ''}'') eval_value])))"
                using p2 by (meson prefix_order.trans prefixI)
              then show ?thesis using Inr e1 a e2 kw f v True by simp
            next
              case False
              show ?thesis
              proof (cases c)
                case (PStr tmp)
                let ?c = "PStr (replace1 (''${'' @ fc @ ''}'') (py_str (repr X) eval_value) tmp)"
                have "prefix (lg2 @ [DebugFunction tmp ?c])
                        (snd (eval_functions_loop X P rest ?c (lg2 @ [DebugFunction tmp ?c])))"
                  using 12(4) [OF ctx False PStr] .
                then have "prefix lg
                        (snd (eval_functions_loop X P rest ?c (lg2 @ [DebugFunction tmp ?c])))"
                  using p2 by (meson prefix_order.trans prefixI)
                then show ?thesis using Inr e1 a e2 kw f v False PStr by simp
              qed (use Inr e1 a e2 kw f v False p2 in simp_all)
            qed
          qed
        qed
      qed
    qed
  qed
qed (auto split: prod.splits sum.splits)

lemma py_eq_PStr: "py_eq (PStr t) leaf \<longleftrightarrow> leaf = PStr t"
  by (cases leaf) (auto simp: py_eq_def)

lemma eval_functions_loop_token_pass:
  "eval_functions_loop X P ts leaf lg
   = token_pass (call_function X P (eval_content_with_bind_actions X P))
       (\<lambda>body. ''${'' @ body @ ''}'') DebugFunction (repr X) ts leaf lg"
proof (induction ts arbitrary: leaf lg)
  case Nil
  show ?case by simp
next
  case (Cons t ts)
  show ?case
    by (simp add: call_function_def splice_def py_eq_PStr Cons.IH
        split: sum.splits prod.splits pyval.splits)
qed

lemma eval_variables_loop_token_pass:
  "eval_variables_loop X P ts leaf lg
   = token_pass (\<lambda>name l. (get_bind_variable X P name, l)) (\<lambda>name. CHR ''$'' # name)
       DebugVariable (repr X) ts leaf lg"
proof (induction ts arbitrary: leaf lg)
  case Nil
  show ?case by simp
next
  case (Cons t ts)
  show ?case
    by (simp add: splice_def py_eq_PStr Cons.IH split: sum.splits prod.splits pyval.splits)
qed

lemma eval_content_variables_pass:
  "eval_content_variables X P leaf lg = variable_pass X P leaf lg"
  by (cases leaf)
     (simp_all add: eval_content_variables_def variable_pass_def extract_variables_def
        re_findall_def findall_variable_occurrences eval_variables_loop_token_pass)

lemma function_pass_log:
  "\<exists>lf. snd (function_pass X P (eval_content_with_bind_actions X P) s lg) = lg @ lf"
proof -
  have "function_pass X P (eval_content_with_bind_actions X P) s lg
        = eval_functions_loop X P (occurrences function_at s) (PStr s) lg"
    by (simp add: function_pass_def eval_functions_loop_token_pass)
  then show ?thesis
    using eval_log_prefix(4) [of lg X P "occurrences function_at s" "PStr s"]
    by (auto simp: prefix_def)
qed

lemma variable_pass_log:
  "\<exists>lv. snd (variable_pass X P leaf lg) = lg @ lv \<and> list_all is_variable_entry lv"
  using eval_variables_loop_log [of X P "extract_variables leaf" leaf lg]
  by (simp add: eval_content_variables_pass [symmetric] eval_content_variables_def)

text \<open>
  C4 (as amended). In the evaluation of a string leaf the function pass comes first and
  the variable pass second. The function pass resolves the function tokens of the stripped
  leaf, leftmost first: for each one the arguments of the call are evaluated, with the
  variable tokens that stand in them, the callable is invoked and its value is spliced into
  the leaf. Only then the variable pass resolves the variable tokens of the content that
  the function pass returned; a failure of the function pass ends the evaluation before it.
  The log of the leaf is the log of the function pass followed by entries of variable
  substitutions only.
\<close>

theorem functions_before_variables:
  "eval_content_with_bind_actions X P (PStr s) lg =
     (case function_pass X P (eval_content_with_bind_actions X P) (strip s) lg of
        (Inl e, lg1) \<Rightarrow> (Inl e, lg1)
      | (Inr leaf, lg1) \<Rightarrow> variable_pass X P leaf lg1)
   \<and> (\<exists>lf lv.
         snd (function_pass X P (eval_content_with_bind_actions X P) (strip s) lg) = lg @ lf
         \<and> snd (eval_content_with_bind_actions X P (PStr s) lg) = lg @ lf @ lv
         \<and> list_all is_variable_entry lv)"
proof -
  have eq: "eval_content_with_bind_actions X P (PStr s) lg =
     (case function_pass X P (eval_content_with_bind_actions X P) (strip s) lg of
        (Inl e, lg1) \<Rightarrow> (Inl e, lg1)
      | (Inr leaf, lg1) \<Rightarrow> variable_pass X P leaf lg1)"
    by (simp add: function_pass_def extract_functions_def re_findall_def
        findall_function_occurrences eval_functions_loop_token_pass eval_content_variables_pass
        split: prod.splits sum.splits)
  obtain r lg1 where f: "function_pass X P (eval_content_with_bind_actions X P) (strip s) lg
      = (r, lg1)" by force
  obtain lf where lf: "lg1 = lg @ lf"
    using function_pass_log [of X P "strip s" lg] f by auto
  have "\<exists>lv. snd (eval_content_with_bind_actions X P (PStr s) lg) = lg @ lf @ lv
          \<and> list_all is_variable_entry lv"
  proof (cases r)
    case (Inl e)
    then show ?thesis using eq f lf by (intro exI [of _ "[]"]) simp
  next
    case (Inr leaf)
    obtain lv where "snd (variable_pass X P leaf lg1) = lg1 @ lv" "list_all is_variable_entry lv"
      using variable_pass_log [of X P leaf lg1] by blast
    then show ?thesis using eq f lf Inr by (intro exI [of _ lv]) simp
  qed
  then show ?thesis using eq f lf by auto
qed

text \<open>
  The claim as stated fails on a leaf with a variable inside the arguments of a call: the
  variable token \<^verbatim>\<open>$uid\<close> of the leaf is resolved before the function token
  \<^verbatim>\<open>${join(1)}\<close> of the same leaf.
\<close>

theorem functions_before_variables_counterexample:
  "extract_functions (PStr ''${join($uid)}${join(1)}'') = [''join($uid)'', ''join(1)'']
   \<and> extract_variables (PStr ''${join($uid)}${join(1)}'') = [''uid'']
   \<and> snd (eval_content_with_bind_actions interp_sample parser_sample
             (PStr ''${join($uid)}${join(1)}'') [])
     = [DebugVariable ''$uid'' (PInt 1000),
        DebugFunction ''${join($uid)}${join(1)}'' (PStr ''1000${join(1)}''),
        DebugFunction ''1000${join(1)}'' (PStr ''10001'')]"
  by (simp add: sample_simps)

text \<open>The variable pass works on the text the function pass produced.\<close>

lemma functions_before_variables_example:
  "eval_content_with_bind_actions interp_sample parser_sample (PStr ''x${ref()}'') []
   = (Inr (PStr ''x1000''),
      [DebugFunction ''x${ref()}'' (PStr ''x$uid''),
       DebugVariable ''x$uid'' (PStr ''x1000'')])"
  by (simp add: sample_simps)

subsection \<open>Merge of a case with its definition\<close>

lemma merge_field_both_lists: "merge_field (PList (y # ys)) (PList (x # xs)) = Inr PNone"
  by (simp add: merge_field_def list_extend_def)

lemma merge_field_one_side:
  "merge_field PNone current_field = Inr current_field"
  "merge_field (PList (y # ys)) PNone = Inr (PList (y # ys))"
  by (simp_all add: merge_field_def)

text \<open>
  C1. The case \<^verbatim>\<open>{pre_command: ["X"]}\<close> merged with the definition
  \<^verbatim>\<open>{pre_command: ["Y"]}\<close> has \<^verbatim>\<open>pre_command\<close> equal to \<^verbatim>\<open>None\<close>, not to
  \<^verbatim>\<open>["X", "Y"]\<close>: the field is assigned the value of
  \<^verbatim>\<open>current_pre.extend(def_pre)\<close>, and \<^verbatim>\<open>list.extend\<close> returns \<^verbatim>\<open>None\<close>.
\<close>

theorem override_block_both_lists:
  "override_block (PDict [(PStr ''pre_command'', PList [PStr ''Y''])])
                  (PDict [(PStr ''pre_command'', PList [PStr ''X''])])
   = Inr (PDict [(PStr ''pre_command'', PNone), (PStr ''post_command'', PNone),
                 (PStr ''verify'', PNone)])"
  by (simp add: override_block_def get_or_none_def merge_field_def list_extend_def py_eq_def)

subsection \<open>Resolution of a reference\<close>

lemma substitute_string_error:
  "substitute_string rp m c = Inl e \<Longrightarrow> e = TypeError \<or> e = AttributeError"
  by (induction rp m c rule: substitute_string.induct) (auto split: if_splits pyval.splits)

lemma substitute_error:
  "substitute_variables_with_mapping rp m v = Inl e \<Longrightarrow> e = TypeError \<or> e = AttributeError"
  "substitute_list rp m xs = Inl e \<Longrightarrow> e = TypeError \<or> e = AttributeError"
  "substitute_items rp m kvs d = Inl e \<Longrightarrow> e = TypeError \<or> e = AttributeError"
  by (induction rp m v and rp m xs and rp m kvs d
      rule: substitute_variables_with_mapping_substitute_list_substitute_items.induct)
     (auto split: if_splits sum.splits dest: substitute_string_error)

lemma py_iter_error: "py_iter v = Inl e \<Longrightarrow> e = TypeError"
  by (cases v) auto

lemma args_mapping_loop_error:
  "args_mapping_loop items call_args m = Inl e \<Longrightarrow> e = TypeError \<or> e = OtherError ''IndexError''"
  by (induction items call_args m rule: args_mapping_loop.induct) (auto split: if_splits)

text \<open>
  C10. A name registered with a body that is falsy resolves like a name that was never
  registered: \<^verbatim>\<open>_get_test_definition\<close> and \<^verbatim>\<open>_get_block_by_name\<close> raise the same
  \<^verbatim>\<open>ApiNotFound\<close> (for the kind \<^verbatim>\<open>api\<close>) or \<^verbatim>\<open>SuiteNotFound\<close> in the two
  stores, whereas the same name registered with a truthy body is found.
\<close>

theorem falsy_definition_not_found:
  assumes "overall_def_dict st ref_type = Some defs" and "defs name = Some body"
    and "\<not> truthy body"
    and "overall_def_dict st0 ref_type = Some defs0" and "defs0 name = None"
    and "parse_function (literal_eval X) ref_call = Inr m" and "func_name m = name"
  shows "get_test_definition st name ref_type = get_test_definition st0 name ref_type
       \<and> get_test_definition st name ref_type
           = Inl (if ref_type = ''api'' then ApiNotFound (name @ '' not found!'')
                  else SuiteNotFound (name @ '' not found!''))
       \<and> get_block_by_name X st ref_call ref_type = get_block_by_name X st0 ref_call ref_type
       \<and> get_block_by_name X st ref_call ref_type
           = Inl (if ref_type = ''api'' then ApiNotFound (name @ '' not found!'')
                  else SuiteNotFound (name @ '' not found!''))
       \<and> (\<forall>block. truthy block \<longrightarrow>
             get_test_definition
               (st\<lparr>overall_def_dict := (overall_def_dict st)(ref_type \<mapsto> defs(name \<mapsto> block))\<rparr>)
               name ref_type = Inr block)"
  using assms
  by (simp add: get_test_definition_def lookup_definition_def get_block_by_name_def)

theorem falsy_definition_not_found_witness:
  "get_block_by_name interp_sample
     (loader_init\<lparr>overall_def_dict := [''api'' \<mapsto> [''f'' \<mapsto> PDict []], ''suite'' \<mapsto> Map.empty]\<rparr>)
     (PStr ''f()'') ''api''
   = get_block_by_name interp_sample loader_init (PStr ''f()'') ''api''
   \<and> get_block_by_name interp_sample
     (loader_init\<lparr>overall_def_dict := [''api'' \<mapsto> [''f'' \<mapsto> PDict []], ''suite'' \<mapsto> Map.empty]\<rparr>)
     (PStr ''f()'') ''api''
   = Inl (ApiNotFound ''f not found!'')"
  using falsy_definition_not_found [of
      "loader_init\<lparr>overall_def_dict := [''api'' \<mapsto> [''f'' \<mapsto> PDict []], ''suite'' \<mapsto> Map.empty]\<rparr>"
      "''api''" "[''f'' \<mapsto> PDict []]" "''f''" "PDict []" loader_init Map.empty
      interp_sample "PStr ''f()''" "\<lparr>func_name = ''f'', args = [], kwargs = []\<rparr>"]
  by (auto simp: loader_init_def interp_sample_def parse_function_def match_call_def
      is_word_def word_chars_def is_arg_char_def)

text \<open>
  C5. A reference resolves only when the call has as many positional arguments as the
  definition declares: with any other number, more or fewer, \<^verbatim>\<open>_get_block_by_name\<close>
  raises \<^verbatim>\<open>ParamsError\<close>, and it returns no block, substituted or not.
\<close>

theorem call_args_mismatch:
  "(\<forall>m block def_args n.
      parse_function (literal_eval X) ref_call = Inr m
      \<longrightarrow> get_test_definition st (func_name m) ref_type = Inr block
      \<longrightarrow> def_args_of block = Inr def_args
      \<longrightarrow> py_len def_args = Inr n
      \<longrightarrow> (get_block_by_name X st ref_call ref_type
             = Inl (ParamsError ''call args mismatch defined args!'')
           \<longleftrightarrow> length (args m) \<noteq> n))
   \<and> (\<forall>b. get_block_by_name X st ref_call ref_type = Inr b
        \<longrightarrow> (\<exists>m block def_args.
               parse_function (literal_eval X) ref_call = Inr m
               \<and> get_test_definition st (func_name m) ref_type = Inr block
               \<and> def_args_of block = Inr def_args
               \<and> py_len def_args = Inr (length (args m))))"
proof (intro conjI allI impI)
  fix m block def_args n
  assume a: "parse_function (literal_eval X) ref_call = Inr m"
    "get_test_definition st (func_name m) ref_type = Inr block"
    "def_args_of block = Inr def_args" "py_len def_args = Inr n"
  show "get_block_by_name X st ref_call ref_type
          = Inl (ParamsError ''call args mismatch defined args!'')
        \<longleftrightarrow> length (args m) \<noteq> n"
  proof (cases "length (args m) = n")
    case False
    then show ?thesis using a by (simp add: get_block_by_name_def)
  next
    case True
    have "get_block_by_name X st ref_call ref_type
          \<noteq> Inl (ParamsError ''call args mismatch defined args!'')"
      using a True
      by (auto simp: get_block_by_name_def Let_def split: sum.splits
          dest: args_mapping_loop_error substitute_error(1) py_iter_error)
    then show ?thesis using True by simp
  qed
next
  fix b
  assume "get_block_by_name X st ref_call ref_type = Inr b"
  then show "\<exists>m block def_args.
               parse_function (literal_eval X) ref_call = Inr m
               \<and> get_test_definition st (func_name m) ref_type = Inr block
               \<and> def_args_of block = Inr def_args
               \<and> py_len def_args = Inr (length (args m))"
    by (auto simp: get_block_by_name_def Let_def split: sum.splits if_splits)
qed

theorem call_args_mismatch_witness:
  "parse_function (literal_eval interp_sample) (PStr ''login(a, b, c)'')
     = Inr \<lparr>func_name = ''login'', args = [PStr ''a'', PStr ''b'', PStr ''c''], kwargs = []\<rparr>
   \<and> py_len (PList [PStr ''$user'', PStr ''$pwd'']) = Inr 2
   \<and> get_block_by_name interp_sample loader_sample (PStr ''login(a, b, c)'') ''api''
     = Inl (ParamsError ''call args mismatch defined args!'')"
  using call_args_mismatch [of interp_sample "PStr ''login(a, b, c)''" loader_sample "''api''",
      THEN conjunct1, rule_format,
      of "\<lparr>func_name = ''login'', args = [PStr ''a'', PStr ''b'', PStr ''c''], kwargs = []\<rparr>"
         "PDict [(PStr ''pre_command'', PList [PStr ''open $user'']),
                 (PStr ''function_meta'',
                  meta_val \<lparr>func_name = ''login'', args = [PStr ''$user'', PStr ''$pwd''],
                            kwargs = []\<rparr>)]"
         "PList [PStr ''$user'', PStr ''$pwd'']" 2]
  by (simp add: interp_sample_def loader_sample_def loader_init_def parse_function_def
      match_call_def is_word_def word_chars_def is_arg_char_def parse_string_value_def
      lev_sample_def get_test_definition_def lookup_definition_def def_args_of_def py_get_def
      meta_val_def py_eq_def)

lemma get_block_by_name_example:
  "get_block_by_name interp_sample loader_sample (PStr ''login(a, b)'') ''api''
   = Inr (PDict
       [(PStr ''pre_command'', PList [PStr ''open a'']),
        (PStr ''function_meta'',
         PDict
          [(PStr ''func_name'', PStr ''login''),
           (PStr ''args'', PList [PStr ''a'', PStr ''b'']),
           (PStr ''kwargs'', PDict [])])])"
  by (simp add: interp_sample_def loader_sample_def loader_init_def parse_function_def
      match_call_def is_word_def word_chars_def is_arg_char_def parse_string_value_def
      lev_sample_def get_test_definition_def lookup_definition_def def_args_of_def py_get_def
      meta_val_def py_eq_def get_block_by_name_def)

end
